theory Spec2Isabelle
  imports Complex_Main "HOL-Library.AList" "HOL-Library.Sublist"
begin

section \<open>Python values and built-ins used by the import wizard\<close>

text \<open>
  The wizard \<^verbatim>\<open>account.move.import\<close> works on the \<^emph>\<open>pivot\<close>: a list of Python
  dictionaries whose values are dynamically typed (\<^verbatim>\<open>False\<close>, strings, numbers, dates).
  A value is a \<open>pval\<close>; a pivot line is a map from keys to values.  A string is a
  list of code points below 256.

  A Python \<^verbatim>\<open>float\<close> is a \<open>pyfloat\<close>: a finite value, kept as a rational (rounding
  and the sign of zero are outside the model), or one of \<^verbatim>\<open>nan\<close>, \<^verbatim>\<open>inf\<close> and
  \<^verbatim>\<open>-inf\<close>, which \<^verbatim>\<open>float()\<close> reads from a text as it reads a numeral.  Addition,
  subtraction and the comparisons follow Python on the values that are not finite:
  \<^verbatim>\<open>nan\<close> absorbs, \<^verbatim>\<open>inf - inf\<close> is \<^verbatim>\<open>nan\<close>, and every comparison with
  \<^verbatim>\<open>nan\<close> is false.
\<close>

datatype pyfloat = Finite rat | NaN | PosInf | NegInf

fun fadd :: "pyfloat \<Rightarrow> pyfloat \<Rightarrow> pyfloat" where
  "fadd (Finite a) (Finite b) = Finite (a + b)"
| "fadd NaN y = NaN"
| "fadd x NaN = NaN"
| "fadd PosInf NegInf = NaN"
| "fadd NegInf PosInf = NaN"
| "fadd PosInf y = PosInf"
| "fadd x PosInf = PosInf"
| "fadd NegInf y = NegInf"
| "fadd x NegInf = NegInf"

fun fneg :: "pyfloat \<Rightarrow> pyfloat" where
  "fneg (Finite a) = Finite (- a)"
| "fneg NaN = NaN"
| "fneg PosInf = NegInf"
| "fneg NegInf = PosInf"

definition fsub :: "pyfloat \<Rightarrow> pyfloat \<Rightarrow> pyfloat" where
  "fsub x y = fadd x (fneg y)"

fun flt :: "pyfloat \<Rightarrow> pyfloat \<Rightarrow> bool" where
  "flt (Finite a) (Finite b) = (a < b)"
| "flt NaN y = False"
| "flt x NaN = False"
| "flt x NegInf = False"
| "flt PosInf y = False"
| "flt NegInf y = True"
| "flt x PosInf = True"

definition feq :: "pyfloat \<Rightarrow> pyfloat \<Rightarrow> bool" where
  "feq x y = (x \<noteq> NaN \<and> x = y)"

type_synonym pydate = "nat \<times> nat \<times> nat"

datatype pval =
    VNone
  | VBool bool
  | VInt int
  | VFloat pyfloat
  | VStr string
  | VDate pydate
  | VDist "(int \<times> pyfloat) list"

type_synonym pivot_line = "string \<rightharpoonup> pval"

datatype other_error =
    WrongPctNotNumber int string
  | WrongPctRange int string
  | MissingDate int
  | BadDateFormat int pval
  | BadCredit int pval
  | BadDebit int pval
  | MissingEntryNumber int

record errors =
  err_other :: "other_error list"
  err_journal :: "(pval \<times> pval list) list"
  err_account :: "(pval \<times> pval list) list"
  err_partner :: "(pval \<times> pval list) list"
  err_analytic :: "(pval \<times> pval list) list"

text \<open>The truth value Python gives a value in \<^verbatim>\<open>if value:\<close>.\<close>

fun truthy :: "pval \<Rightarrow> bool" where
  "truthy VNone = False"
| "truthy (VBool b) = b"
| "truthy (VInt n) = (n \<noteq> 0)"
| "truthy (VFloat r) = (r \<noteq> Finite 0)"
| "truthy (VStr s) = (s \<noteq> [])"
| "truthy (VDate d) = True"
| "truthy (VDist d) = (d \<noteq> [])"

text \<open>\<^verbatim>\<open>isinstance(v, (float, int))\<close>: \<^verbatim>\<open>bool\<close> is a subclass of \<^verbatim>\<open>int\<close>.\<close>

fun is_number :: "pval \<Rightarrow> bool" where
  "is_number (VBool b) = True"
| "is_number (VInt n) = True"
| "is_number (VFloat r) = True"
| "is_number v = False"

fun is_int :: "pval \<Rightarrow> bool" where
  "is_int (VBool b) = True"
| "is_int (VInt n) = True"
| "is_int v = False"

fun num_val :: "pval \<Rightarrow> pyfloat" where
  "num_val (VBool b) = Finite (if b then 1 else 0)"
| "num_val (VInt n) = Finite (of_int n)"
| "num_val (VFloat r) = r"
| "num_val v = Finite 0"

fun int_val :: "pval \<Rightarrow> int" where
  "int_val (VBool b) = (if b then 1 else 0)"
| "int_val (VInt n) = n"
| "int_val v = 0"

text \<open>
  Python's \<^verbatim>\<open>==\<close> on the values above: numbers (booleans included) compare by value,
  other types only with themselves.
\<close>

fun py_eq :: "pval \<Rightarrow> pval \<Rightarrow> bool" where
  "py_eq VNone w = (w = VNone)"
| "py_eq (VStr s) w = (w = VStr s)"
| "py_eq (VDate d) w = (w = VDate d)"
| "py_eq (VDist d) w = (case w of VDist e \<Rightarrow> set d = set e | _ \<Rightarrow> False)"
| "py_eq v w = (is_number w \<and> feq (num_val v) (num_val w))"

text \<open>
  \<^verbatim>\<open>str.isspace\<close> on the code points below 256, and \<^verbatim>\<open>str.strip()\<close>.
\<close>

definition py_isspace :: "char \<Rightarrow> bool" where
  "py_isspace c =
     (let n = (of_char c :: nat)
      in (9 \<le> n \<and> n \<le> 13) \<or> (28 \<le> n \<and> n \<le> 32) \<or> n = 133 \<or> n = 160)"

definition py_strip :: "string \<Rightarrow> string" where
  "py_strip s = rev (dropWhile py_isspace (rev (dropWhile py_isspace s)))"

datatype user_error =
    ResolutionErrors errors
  | OnlyOneLine int
  | NotBalanced pyfloat
  | WrongSplitMethod

datatype pyerr =
    UserError user_error
  | KeyError string
  | TypeError
  | AttributeError
  | ValueError
  | AssertionError
  | IndexError
  | OverflowError
  | CsvError

text \<open>\<^verbatim>\<open>l.get(k)\<close> and \<^verbatim>\<open>l[k]\<close> on a pivot line.\<close>

definition dict_get :: "pivot_line \<Rightarrow> string \<Rightarrow> pval" where
  "dict_get l k = (case l k of None \<Rightarrow> VNone | Some v \<Rightarrow> v)"

definition dict_item :: "pivot_line \<Rightarrow> string \<Rightarrow> pyerr + pval" where
  "dict_item l k = (case l k of None \<Rightarrow> Inl (KeyError k) | Some v \<Rightarrow> Inr v)"

fun bind_err :: "'e + 'a \<Rightarrow> ('a \<Rightarrow> 'e + 'b) \<Rightarrow> 'e + 'b" where
  "bind_err (Inl e) f = Inl e"
| "bind_err (Inr x) f = f x"

text \<open>A \<^verbatim>\<open>for\<close> loop whose body may raise: the first exception ends the loop.\<close>

fun map_err :: "('a \<Rightarrow> 'e + 'b) \<Rightarrow> 'a list \<Rightarrow> 'e + 'b list" where
  "map_err f [] = Inr []"
| "map_err f (x # xs) =
     (case f x of
        Inl e \<Rightarrow> Inl e
      | Inr y \<Rightarrow> (case map_err f xs of Inl e \<Rightarrow> Inl e | Inr ys \<Rightarrow> Inr (y # ys)))"

section \<open>The wizard's options\<close>

datatype split_method = Balanced | MoveName | OtherMethod

record config =
  force_move_date :: "pydate option"
  force_move_ref :: "string option"
  force_move_line_name :: "string option"
  force_journal_code :: "string option"
  date_by_move_line :: bool
  skip_null_lines :: bool
  keep_odoo_move_name :: bool
  split_move_method :: split_method
  file_with_header :: bool
  file_encoding :: string

text \<open>The defaults the wizard's fields declare.\<close>

definition default_config :: config where
  "default_config =
     \<lparr>force_move_date = None, force_move_ref = None, force_move_line_name = None,
      force_journal_code = None, date_by_move_line = False, skip_null_lines = False,
      keep_odoo_move_name = False, split_move_method = Balanced, file_with_header = False,
      file_encoding = ''utf-8''\<rparr>"

section \<open>The normalizer: \<^verbatim>\<open>clean_strip_pivot\<close> and \<^verbatim>\<open>update_pivot\<close>\<close>

text \<open>
  \<^verbatim>\<open>clean_strip_pivot\<close> rewrites every value of every line: a true string is stripped
  (and becomes \<^verbatim>\<open>False\<close> when nothing is left), another true value is kept, a false
  value becomes \<^verbatim>\<open>False\<close>.
\<close>

definition clean_value :: "pval \<Rightarrow> pval" where
  "clean_value v =
     (if truthy v then
        (case v of
           VStr s \<Rightarrow> (if py_strip s \<noteq> [] then VStr (py_strip s) else VBool False)
         | _ \<Rightarrow> v)
      else VBool False)"

definition clean_strip_line :: "pivot_line \<Rightarrow> pivot_line" where
  "clean_strip_line l = (\<lambda>k. map_option clean_value (l k))"

definition clean_strip_pivot :: "pivot_line list \<Rightarrow> pivot_line list" where
  "clean_strip_pivot pivot = map clean_strip_line pivot"

text \<open>
  \<^verbatim>\<open>update_pivot\<close>: the forced values, read from the wizard, replace the line's when
  they are true; \<^verbatim>\<open>l['credit']\<close> and \<^verbatim>\<open>l['debit']\<close> are read (a \<^verbatim>\<open>KeyError\<close> when
  the key is missing) and set to \<^verbatim>\<open>0.0\<close> when false.
\<close>

definition force_str :: "string option \<Rightarrow> string \<Rightarrow> pivot_line \<Rightarrow> pivot_line" where
  "force_str forced k l =
     (case forced of
        Some s \<Rightarrow> (if s \<noteq> [] then l(k \<mapsto> VStr s) else l)
      | None \<Rightarrow> l)"

definition default_zero :: "string \<Rightarrow> pivot_line \<Rightarrow> pyerr + pivot_line" where
  "default_zero k l =
     (case l k of
        None \<Rightarrow> Inl (KeyError k)
      | Some v \<Rightarrow> Inr (if \<not> truthy v then l(k \<mapsto> VFloat (Finite 0)) else l))"

definition update_line :: "config \<Rightarrow> pivot_line \<Rightarrow> pyerr + pivot_line" where
  "update_line cfg l =
     (let l1 = (case force_move_date cfg of Some d \<Rightarrow> l(''date'' \<mapsto> VDate d) | None \<Rightarrow> l);
          l2 = force_str (force_move_line_name cfg) ''name'' l1;
          l3 = force_str (force_move_ref cfg) ''ref'' l2;
          l4 = force_str (force_journal_code cfg) ''journal'' l3
      in bind_err (default_zero ''credit'' l4) (default_zero ''debit''))"

definition update_pivot :: "config \<Rightarrow> pivot_line list \<Rightarrow> pyerr + pivot_line list" where
  "update_pivot cfg pivot = map_err (update_line cfg) pivot"

definition normalizer :: "config \<Rightarrow> pivot_line list \<Rightarrow> pyerr + pivot_line list" where
  "normalizer cfg pivot = update_pivot cfg (clean_strip_pivot pivot)"

text \<open>
  A characterisation of \<^verbatim>\<open>update_pivot\<close> used below: what one pass leaves under each
  key, given what the line held there.
\<close>

definition zero_if_false :: "pval \<Rightarrow> pval" where
  "zero_if_false v = (if truthy v then v else VFloat (Finite 0))"

definition forced_value :: "config \<Rightarrow> string \<Rightarrow> pval option" where
  "forced_value cfg k =
     (if k = ''journal'' then
        (case force_journal_code cfg of
           Some s \<Rightarrow> if s \<noteq> [] then Some (VStr s) else None
         | None \<Rightarrow> None)
      else if k = ''ref'' then
        (case force_move_ref cfg of
           Some s \<Rightarrow> if s \<noteq> [] then Some (VStr s) else None
         | None \<Rightarrow> None)
      else if k = ''name'' then
        (case force_move_line_name cfg of
           Some s \<Rightarrow> if s \<noteq> [] then Some (VStr s) else None
         | None \<Rightarrow> None)
      else if k = ''date'' then map_option VDate (force_move_date cfg)
      else None)"

definition updated_entry :: "config \<Rightarrow> string \<Rightarrow> pval option \<Rightarrow> pval option" where
  "updated_entry cfg k ov =
     (case forced_value cfg k of
        Some v \<Rightarrow> Some v
      | None \<Rightarrow> if k = ''credit'' \<or> k = ''debit'' then map_option zero_if_false ov else ov)"

section \<open>The directory and the host's functions\<close>

text \<open>
  \<^verbatim>\<open>_prepare_speeddict\<close> reads four dictionaries from the database, from an upper-cased
  code to a record id.  The account dictionary is iterated in its insertion order, so
  each is an association list (with distinct keys, as a Python dictionary has).
  The functions the wizard calls and the repository does not define are parameters:
  Python's \<^verbatim>\<open>float\<close> on a string and \<^verbatim>\<open>datetime.strptime\<close> (\<open>None\<close> when they raise),
  the company currency's \<^verbatim>\<open>is_zero\<close>, and the sequence number drawn for the import.
\<close>

record speeddict =
  sd_partner :: "(string \<times> int) list"
  sd_journal :: "(string \<times> int) list"
  sd_account :: "(string \<times> int) list"
  sd_analytic :: "(string \<times> int) list"

record host =
  py_float :: "string \<Rightarrow> pyfloat option"
  strptime :: "string \<Rightarrow> string \<Rightarrow> pydate option"
  is_zero :: "pyfloat \<Rightarrow> bool"
  next_seq :: string

datatype log_event =
    ApproximateMatch pval string
  | SkipNullLine pval
  | SkipOnlyOneLine string
  | SkipNotBalanced string pyfloat
  | SkipDifferentAccounts string "string list"
  | SkipNotReconcilable string string

text \<open>
  \<^verbatim>\<open>key in d\<close> followed by \<^verbatim>\<open>d[key]\<close> for a dictionary with string keys: only a
  string can be found; a dictionary value cannot be hashed.
\<close>

fun sd_lookup :: "(string \<times> int) list \<Rightarrow> pval \<Rightarrow> pyerr + int option" where
  "sd_lookup d (VStr s) = Inr (map_of d s)"
| "sd_lookup d (VDist x) = Inl TypeError"
| "sd_lookup d v = Inr None"

text \<open>\<^verbatim>\<open>errors[key].setdefault(code, []).append(line)\<close>\<close>

definition add_code_error ::
  "pval \<Rightarrow> pval \<Rightarrow> (pval \<times> pval list) list \<Rightarrow> (pval \<times> pval list) list" where
  "add_code_error code line bucket =
     (case map_of bucket code of
        None \<Rightarrow> bucket @ [(code, [line])]
      | Some ls \<Rightarrow> AList.update code (ls @ [line]) bucket)"

type_synonym rstate = "pivot_line \<times> errors \<times> log_event list"

section \<open>The directory resolver (first loop of \<^verbatim>\<open>create_moves_from_pivot\<close>)\<close>

subsection \<open>Accounts\<close>

text \<open>
  \<^verbatim>\<open>if l['account'] in speeddict['account']: l['account_id'] = ...\<close>
\<close>

definition match_exact :: "speeddict \<Rightarrow> pivot_line \<Rightarrow> pyerr + pivot_line" where
  "match_exact sd l =
     bind_err (dict_item l ''account'') (\<lambda>a.
     bind_err (sd_lookup (sd_account sd) a) (\<lambda>hit.
       Inr (case hit of Some i \<Rightarrow> l(''account_id'' \<mapsto> VInt i) | None \<Rightarrow> l)))"

text \<open>
  The \<^verbatim>\<open>while\<close> loop: while the code is not empty and ends in \<^verbatim>\<open>'0'\<close>, drop the
  last character; stop at the first shortened code that is not empty and in the directory.
\<close>

function strip_zeros :: "(string \<times> int) list \<Rightarrow> string \<Rightarrow> int option" where
  "strip_zeros d code =
     (if code \<noteq> [] \<and> last code = CHR ''0'' then
        (let code' = butlast code
         in if code' \<noteq> [] \<and> map_of d code' \<noteq> None then map_of d code'
            else strip_zeros d code')
      else None)"
  by pat_completeness auto
termination
  by (relation "measure (\<lambda>(d, code). length code)") auto

declare strip_zeros.simps [simp del]

text \<open>
  On a true value that is not a string, \<^verbatim>\<open>acc_code_tmp[-1]\<close> raises; on a dictionary it
  is a lookup of the key \<open>-1\<close>.
\<close>

definition match_truncated :: "speeddict \<Rightarrow> pivot_line \<Rightarrow> pyerr + pivot_line" where
  "match_truncated sd l =
     (if truthy (dict_get l ''account_id'') then Inr l
      else
        bind_err (dict_item l ''account'') (\<lambda>a.
          if \<not> truthy a then Inr l
          else
            (case a of
               VStr code \<Rightarrow>
                 Inr (case strip_zeros (sd_account sd) code of
                        Some i \<Rightarrow> l(''account_id'' \<mapsto> VInt i)
                      | None \<Rightarrow> l)
             | VDist x \<Rightarrow>
                 (case map_of x (- 1) of None \<Rightarrow> Inl (KeyError ''-1'') | Some r \<Rightarrow> Inr l)
             | _ \<Rightarrow> Inl TypeError)))"

text \<open>
  The \<^verbatim>\<open>for\<close> loop over the directory: the first code that starts with the line's
  account; \<^verbatim>\<open>code.startswith(x)\<close> raises when \<open>x\<close> is not a string.
\<close>

fun scan_prefix :: "(string \<times> int) list \<Rightarrow> pval \<Rightarrow> pyerr + (string \<times> int) option" where
  "scan_prefix [] a = Inr None"
| "scan_prefix ((code, i) # d) a =
     (case a of
        VStr s \<Rightarrow> if prefix s code then Inr (Some (code, i)) else scan_prefix d a
      | _ \<Rightarrow> Inl TypeError)"

definition match_prefix ::
  "speeddict \<Rightarrow> pivot_line \<times> log_event list \<Rightarrow> pyerr + pivot_line \<times> log_event list" where
  "match_prefix sd = (\<lambda>(l, lg).
     if truthy (dict_get l ''account_id'') then Inr (l, lg)
     else
       bind_err (dict_item l ''account'') (\<lambda>a.
       bind_err (scan_prefix (sd_account sd) a) (\<lambda>hit.
         Inr (case hit of
                Some (code, i) \<Rightarrow> (l(''account_id'' \<mapsto> VInt i), lg @ [ApproximateMatch a code])
              | None \<Rightarrow> (l, lg)))))"

definition resolve_account :: "speeddict \<Rightarrow> rstate \<Rightarrow> pyerr + rstate" where
  "resolve_account sd = (\<lambda>(l, errs, lg).
     bind_err (match_exact sd l) (\<lambda>l1.
     bind_err (match_truncated sd l1) (\<lambda>l2.
     bind_err (match_prefix sd (l2, lg)) (\<lambda>(l3, lg3).
       if truthy (dict_get l3 ''account_id'') then Inr (l3, errs, lg3)
       else
         bind_err (dict_item l3 ''account'') (\<lambda>a.
         bind_err (dict_item l3 ''line'') (\<lambda>n.
           Inr (l3, errs\<lparr>err_account := add_code_error a n (err_account errs)\<rparr>, lg3)))))))"

text \<open>
  The resolution order in the words of the specification, for a string code: (a) the
  exact code; (b) else the first of the codes got by taking trailing zeros off, one more
  each time, that is not empty and in the directory; (c) else the first directory code
  that starts with the code; (d) else no account.
\<close>

definition trailing_zeros :: "string \<Rightarrow> nat" where
  "trailing_zeros code = length (takeWhile (\<lambda>c. c = CHR ''0'') (rev code))"

definition truncations :: "string \<Rightarrow> string list" where
  "truncations code =
     map (\<lambda>j. take (length code - j) code) [1 ..< Suc (trailing_zeros code)]"

datatype resolution = Exact int | Truncated string int | Approximate string int | Unresolved

definition spec_resolve_account :: "(string \<times> int) list \<Rightarrow> string \<Rightarrow> resolution" where
  "spec_resolve_account d code =
     (case map_of d code of
        Some i \<Rightarrow> Exact i
      | None \<Rightarrow>
          (case List.find (\<lambda>c. c \<noteq> [] \<and> map_of d c \<noteq> None) (truncations code) of
             Some c \<Rightarrow> Truncated c (the (map_of d c))
           | None \<Rightarrow>
               (case List.find (\<lambda>(c, i). prefix code c) d of
                  Some (c, i) \<Rightarrow> Approximate c i
                | None \<Rightarrow> Unresolved)))"

subsection \<open>Partners and journals\<close>

definition resolve_partner :: "speeddict \<Rightarrow> rstate \<Rightarrow> pyerr + rstate" where
  "resolve_partner sd = (\<lambda>(l, errs, lg).
     if truthy (dict_get l ''partner'') then
       bind_err (dict_item l ''partner'') (\<lambda>p.
       bind_err (sd_lookup (sd_partner sd) p) (\<lambda>hit.
         case hit of
           Some i \<Rightarrow> Inr (l(''partner_id'' \<mapsto> VInt i), errs, lg)
         | None \<Rightarrow>
             bind_err (dict_item l ''line'') (\<lambda>n.
               Inr (l, errs\<lparr>err_partner := add_code_error p n (err_partner errs)\<rparr>, lg))))
     else Inr (l, errs, lg))"

definition resolve_journal :: "speeddict \<Rightarrow> rstate \<Rightarrow> pyerr + rstate" where
  "resolve_journal sd = (\<lambda>(l, errs, lg).
     bind_err (dict_item l ''journal'') (\<lambda>j.
     bind_err (sd_lookup (sd_journal sd) j) (\<lambda>hit.
       case hit of
         Some i \<Rightarrow> Inr (l(''journal_id'' \<mapsto> VInt i), errs, lg)
       | None \<Rightarrow>
           bind_err (dict_item l ''line'') (\<lambda>n.
             Inr (l, errs\<lparr>err_journal := add_code_error j n (err_journal errs)\<rparr>, lg)))))"

subsection \<open>Analytic distribution\<close>

text \<open>\<^verbatim>\<open>s.split(c)\<close>, \<^verbatim>\<open>c.join(parts)\<close> and \<^verbatim>\<open>s.replace(',', '.')\<close>.\<close>

fun py_split :: "char \<Rightarrow> string \<Rightarrow> string list" where
  "py_split c [] = [[]]"
| "py_split c (x # xs) =
     (if x = c then [] # py_split c xs
      else (case py_split c xs of y # ys \<Rightarrow> (x # y) # ys | [] \<Rightarrow> [[x]]))"

fun py_join :: "char \<Rightarrow> string list \<Rightarrow> string" where
  "py_join c [] = []"
| "py_join c [s] = s"
| "py_join c (s # t # ss) = s @ c # py_join c (t # ss)"

definition comma_to_dot :: "string \<Rightarrow> string" where
  "comma_to_dot s = map (\<lambda>c. if c = CHR '','' then CHR ''.'' else c) s"

text \<open>
  The percentage of a segment with a colon: \<^verbatim>\<open>float()\<close> of the text after the last
  colon; when that raises, an error is recorded and the percentage is 1; then, whatever
  the percentage is, an error is recorded when \<^verbatim>\<open>ana_pct < 0 or ana_pct > 100\<close>, which
  is false of \<^verbatim>\<open>nan\<close>.  The integers 100 and 1 of the source are kept as the floats
  of the same value.
\<close>

definition parse_pct ::
  "host \<Rightarrow> int \<Rightarrow> string \<Rightarrow> other_error list \<Rightarrow> pyfloat \<times> other_error list" where
  "parse_pct h line ana_pct_str other =
     (let (ana_pct, other1) =
            (case py_float h (comma_to_dot ana_pct_str) of
               Some r \<Rightarrow> (r, other)
             | None \<Rightarrow> (Finite 1, other @ [WrongPctNotNumber line ana_pct_str]))
      in (ana_pct,
          if flt ana_pct (Finite 0) \<or> flt (Finite 100) ana_pct
          then other1 @ [WrongPctRange line ana_pct_str]
          else other1))"

text \<open>
  The code and percentage of one stripped, non-empty segment
  (\<^verbatim>\<open>ana_entry.split(':')\<close> has one part or more).
\<close>

definition split_entry ::
  "host \<Rightarrow> int \<Rightarrow> string \<Rightarrow> other_error list \<Rightarrow> string \<times> pyfloat \<times> other_error list" where
  "split_entry h line ana_entry other =
     (let ana_entry_split = py_split CHR '':'' ana_entry
      in if length ana_entry_split = 1 then (py_strip (hd ana_entry_split), Finite 100, other)
         else
           (let ana_account_code = py_strip (py_join CHR '':'' (butlast ana_entry_split));
                (ana_pct, other1) = parse_pct h line (last ana_entry_split) other
            in (ana_account_code, ana_pct, other1)))"

text \<open>The body of the loop over the segments of \<^verbatim>\<open>l['analytic'].split('|')\<close>.\<close>

definition analytic_entry ::
  "speeddict \<Rightarrow> host \<Rightarrow> pval \<Rightarrow> string \<Rightarrow> (int \<times> pyfloat) list \<times> errors
     \<Rightarrow> (int \<times> pyfloat) list \<times> errors" where
  "analytic_entry sd h line ana_entry0 = (\<lambda>(dist, errs).
     (let ana_entry = py_strip ana_entry0
      in if ana_entry = [] then (dist, errs)
         else
           (let (ana_account_code, ana_pct, other1) =
                   split_entry h (int_val line) ana_entry (err_other errs);
                errs1 = errs\<lparr>err_other := other1\<rparr>
            in case map_of (sd_analytic sd) ana_account_code of
                 Some i \<Rightarrow> (AList.update i ana_pct dist, errs1)
               | None \<Rightarrow>
                   (dist,
                    errs1\<lparr>err_analytic :=
                      add_code_error (VStr ana_account_code) line (err_analytic errs1)\<rparr>))))"

definition analytic_entries ::
  "speeddict \<Rightarrow> host \<Rightarrow> pval \<Rightarrow> string list \<Rightarrow> (int \<times> pyfloat) list \<times> errors
     \<Rightarrow> (int \<times> pyfloat) list \<times> errors" where
  "analytic_entries sd h line segs acc = fold (analytic_entry sd h line) segs acc"

text \<open>
  \<^verbatim>\<open>if l.get('analytic'):\<close> the distribution starts empty; a true value that is not a
  string has no \<^verbatim>\<open>split\<close>.
\<close>

definition resolve_analytic :: "speeddict \<Rightarrow> host \<Rightarrow> rstate \<Rightarrow> pyerr + rstate" where
  "resolve_analytic sd h = (\<lambda>(l, errs, lg).
     if truthy (dict_get l ''analytic'') then
       (case dict_get l ''analytic'' of
          VStr s \<Rightarrow>
            (let (dist, errs1) =
                   analytic_entries sd h (dict_get l ''line'') (py_split CHR ''|'' s) ([], errs)
             in Inr (l(''analytic_distribution'' \<mapsto> VDist dist), errs1, lg))
        | _ \<Rightarrow> Inl AttributeError)
     else Inr (l, errs, lg))"

subsection \<open>Date, credit and debit\<close>

definition add_other :: "other_error \<Rightarrow> errors \<Rightarrow> errors" where
  "add_other e errs = errs\<lparr>err_other := err_other errs @ [e]\<rparr>"

text \<open>
  A date or datetime object is kept; anything else goes through
  \<^verbatim>\<open>datetime.strptime(l['date'], '%Y-%m-%d')\<close>, and every exception of it is caught.
\<close>

definition check_date :: "host \<Rightarrow> rstate \<Rightarrow> pyerr + rstate" where
  "check_date h = (\<lambda>(l, errs, lg).
     bind_err (dict_item l ''line'') (\<lambda>n.
       if \<not> truthy (dict_get l ''date'') then
         Inr (l, add_other (MissingDate (int_val n)) errs, lg)
       else
         (case dict_get l ''date'' of
            VDate d \<Rightarrow> Inr (l, errs, lg)
          | VStr s \<Rightarrow>
              (case strptime h s ''%Y-%m-%d'' of
                 Some d \<Rightarrow> Inr (l(''date'' \<mapsto> VDate d), errs, lg)
               | None \<Rightarrow> Inr (l, add_other (BadDateFormat (int_val n) (VStr s)) errs, lg))
          | v \<Rightarrow> Inr (l, add_other (BadDateFormat (int_val n) v) errs, lg))))"

definition check_amount ::
  "string \<Rightarrow> (int \<Rightarrow> pval \<Rightarrow> other_error) \<Rightarrow> rstate \<Rightarrow> pyerr + rstate" where
  "check_amount k mk = (\<lambda>(l, errs, lg).
     if \<not> is_number (dict_get l k) then
       bind_err (dict_item l ''line'') (\<lambda>n.
       bind_err (dict_item l k) (\<lambda>v.
         Inr (l, add_other (mk (int_val n) v) errs, lg)))
     else Inr (l, errs, lg))"

subsection \<open>The loop and the aggregate error\<close>

text \<open>
  One line: the assertion on the line number, then the checks in the order of the source.
\<close>

definition resolve_line :: "speeddict \<Rightarrow> host \<Rightarrow> rstate \<Rightarrow> pyerr + rstate" where
  "resolve_line sd h = (\<lambda>(l, errs, lg).
     if \<not> (truthy (dict_get l ''line'') \<and> is_int (dict_get l ''line'')) then Inl AssertionError
     else
       bind_err (resolve_account sd (l, errs, lg)) (\<lambda>s1.
       bind_err (resolve_partner sd s1) (\<lambda>s2.
       bind_err (resolve_analytic sd h s2) (\<lambda>s3.
       bind_err (resolve_journal sd s3) (\<lambda>s4.
       bind_err (check_date h s4) (\<lambda>s5.
       bind_err (check_amount ''credit'' BadCredit s5) (\<lambda>s6.
         check_amount ''debit'' BadDebit s6)))))))"

fun resolve_pivot ::
  "speeddict \<Rightarrow> host \<Rightarrow> pivot_line list \<Rightarrow> errors \<times> log_event list
     \<Rightarrow> pyerr + pivot_line list \<times> errors \<times> log_event list" where
  "resolve_pivot sd h [] (errs, lg) = Inr ([], errs, lg)"
| "resolve_pivot sd h (l # ls) (errs, lg) =
     (case resolve_line sd h (l, errs, lg) of
        Inl e \<Rightarrow> Inl e
      | Inr (l', errs', lg') \<Rightarrow>
          (case resolve_pivot sd h ls (errs', lg') of
             Inl e \<Rightarrow> Inl e
           | Inr (ls', errs'', lg'') \<Rightarrow> Inr (l' # ls', errs'', lg'')))"

definition no_errors :: errors where
  "no_errors = \<lparr>err_other = [], err_journal = [], err_account = [], err_partner = [],
                 err_analytic = []\<rparr>"

text \<open>
  The message is built from the five buckets and is empty exactly when all of them are.
\<close>

definition has_errors :: "errors \<Rightarrow> bool" where
  "has_errors errs =
     (err_journal errs \<noteq> [] \<or> err_account errs \<noteq> [] \<or> err_partner errs \<noteq> [] \<or>
      err_analytic errs \<noteq> [] \<or> err_other errs \<noteq> [])"

definition validate_pivot ::
  "speeddict \<Rightarrow> host \<Rightarrow> pivot_line list \<Rightarrow> pyerr + pivot_line list \<times> log_event list" where
  "validate_pivot sd h pivot =
     bind_err (resolve_pivot sd h pivot (no_errors, [])) (\<lambda>(pivot', errs, lg).
       if has_errors errs then Inl (UserError (ResolutionErrors errs))
       else Inr (pivot', lg))"

section \<open>The move splitter (second loop of \<^verbatim>\<open>create_moves_from_pivot\<close>)\<close>

text \<open>
  The values handed to \<^verbatim>\<open>account.move.create\<close>: \<^verbatim>\<open>_prepare_move\<close> and
  \<^verbatim>\<open>_prepare_move_line\<close>.  \<open>mv_name\<close> is \<open>None\<close> when the dictionary has no
  \<^verbatim>\<open>'name'\<close> key; \<^verbatim>\<open>import_external_id\<close> is the pair that is formatted as
  \<^verbatim>\<open>'%s-%s'\<close>.
\<close>

record move_line =
  ml_credit :: pval
  ml_debit :: pval
  ml_name :: pval
  ml_partner_id :: pval
  ml_account_id :: pval
  ml_analytic_distribution :: pval
  ml_import_reconcile :: pval
  ml_import_external_id :: "string \<times> pval"

record move =
  mv_journal_id :: pval
  mv_ref :: pval
  mv_date :: pval
  mv_name :: "pval option"
  mv_line_ids :: "move_line list"

definition prepare_move :: "config \<Rightarrow> pivot_line \<Rightarrow> pyerr + move" where
  "prepare_move cfg pivot_line =
     bind_err (dict_item pivot_line ''journal_id'') (\<lambda>j.
     bind_err (dict_item pivot_line ''date'') (\<lambda>d.
       Inr \<lparr>mv_journal_id = j,
            mv_ref = dict_get pivot_line ''ref'',
            mv_date = d,
            mv_name =
              (if truthy (dict_get pivot_line ''move_name'') \<and> \<not> keep_odoo_move_name cfg
               then pivot_line ''move_name'' else None),
            mv_line_ids = []\<rparr>))"

definition prepare_move_line :: "pivot_line \<Rightarrow> string \<Rightarrow> pyerr + move_line" where
  "prepare_move_line pivot_line sequence =
     bind_err (dict_item pivot_line ''credit'') (\<lambda>c.
     bind_err (dict_item pivot_line ''debit'') (\<lambda>d.
     bind_err (dict_item pivot_line ''name'') (\<lambda>n.
     bind_err (dict_item pivot_line ''account_id'') (\<lambda>a.
       Inr \<lparr>ml_credit = c,
            ml_debit = d,
            ml_name = n,
            ml_partner_id = dict_get pivot_line ''partner_id'',
            ml_account_id = a,
            ml_analytic_distribution = dict_get pivot_line ''analytic_distribution'',
            ml_import_reconcile = dict_get pivot_line ''reconcile_ref'',
            ml_import_external_id = (sequence, dict_get pivot_line ''line'')\<rparr>))))"

text \<open>
  The variables of the loop.  \<open>cur_move\<close> is \<open>None\<close> for the empty dictionary the
  loop starts with; \<open>st_errors\<close> is \<^verbatim>\<open>errors['other']\<close>, which the loop still appends to.
\<close>

record split_state =
  st_moves :: "move list"
  cur_journal_id :: pval
  cur_move_name :: pval
  cur_date :: pval
  cur_balance :: pyfloat
  cur_move :: "move option"
  st_errors :: "other_error list"
  st_log :: "log_event list"

definition init_state :: split_state where
  "init_state =
     \<lparr>st_moves = [], cur_journal_id = VBool False, cur_move_name = VBool False,
      cur_date = VBool False, cur_balance = Finite 0, cur_move = None, st_errors = [], st_log = []\<rparr>"

text \<open>
  A number where arithmetic or \<^verbatim>\<open>is_zero\<close> needs one, and \<^verbatim>\<open>'%d' % v\<close>, which
  truncates a finite float and raises on the others.
\<close>

definition as_number :: "pval \<Rightarrow> pyerr + pyfloat" where
  "as_number v = (if is_number v then Inr (num_val v) else Inl TypeError)"

definition fmt_d :: "pval \<Rightarrow> pyerr + int" where
  "fmt_d v =
     (case v of
        VBool b \<Rightarrow> Inr (int_val v)
      | VInt n \<Rightarrow> Inr n
      | VFloat (Finite r) \<Rightarrow> Inr (if 0 \<le> r then \<lfloor>r\<rfloor> else \<lceil>r\<rceil>)
      | VFloat NaN \<Rightarrow> Inl ValueError
      | VFloat PosInf \<Rightarrow> Inl OverflowError
      | VFloat NegInf \<Rightarrow> Inl OverflowError
      | _ \<Rightarrow> Inl TypeError)"

text \<open>
  \<^verbatim>\<open>skip_null_lines and comp_cur.is_zero(l['credit']) and comp_cur.is_zero(l['debit'])\<close>
\<close>

definition is_null_line :: "config \<Rightarrow> host \<Rightarrow> pivot_line \<Rightarrow> pyerr + bool" where
  "is_null_line cfg h l =
     (if skip_null_lines cfg then
        bind_err (dict_item l ''credit'') (\<lambda>c.
        bind_err (as_number c) (\<lambda>cn.
          if is_zero h cn then
            bind_err (dict_item l ''debit'') (\<lambda>d.
            bind_err (as_number d) (\<lambda>dn. Inr (is_zero h dn)))
          else Inr False))
      else Inr False)"

text \<open>
  The list \<^verbatim>\<open>same_move\<close>, with \<^verbatim>\<open>errors['other']\<close> as the by-entry-number branch
  leaves it.
\<close>

definition same_move ::
  "config \<Rightarrow> host \<Rightarrow> split_state \<Rightarrow> pivot_line \<Rightarrow> pyerr + bool list \<times> other_error list" where
  "same_move cfg h st l =
     (let move_name = dict_get l ''move_name''
      in case split_move_method cfg of
           MoveName \<Rightarrow>
             bind_err
               (if \<not> truthy move_name then
                  bind_err (dict_item l ''line'') (\<lambda>n.
                  bind_err (fmt_d n) (\<lambda>i. Inr (st_errors st @ [MissingEntryNumber i])))
                else Inr (st_errors st))
               (\<lambda>errs. Inr ([py_eq (cur_move_name st) move_name], errs))
         | Balanced \<Rightarrow>
             bind_err (dict_item l ''journal_id'') (\<lambda>j.
               (let same = [py_eq (cur_journal_id st) j, \<not> is_zero h (cur_balance st)]
                in if \<not> date_by_move_line cfg then
                     bind_err (dict_item l ''date'') (\<lambda>d.
                       Inr (same @ [py_eq (cur_date st) d], st_errors st))
                   else Inr (same, st_errors st)))
         | OtherMethod \<Rightarrow> Inl (UserError WrongSplitMethod))"

text \<open>\<^verbatim>\<open>cur_move['line_ids'].append(...)\<close>: the empty dictionary has no such key.\<close>

definition append_line :: "host \<Rightarrow> split_state \<Rightarrow> pivot_line \<Rightarrow> pyerr + split_state" where
  "append_line h st l =
     (case cur_move st of
        None \<Rightarrow> Inl (KeyError ''line_ids'')
      | Some m \<Rightarrow>
          bind_err (prepare_move_line l (next_seq h)) (\<lambda>ml.
            Inr (st\<lparr>cur_move := Some (m\<lparr>mv_line_ids := mv_line_ids m @ [ml]\<rparr>)\<rparr>)))"

text \<open>
  The \<^verbatim>\<open>else\<close> branch: a current move with one line or none is an error naming the
  line; otherwise the current move is emitted and a new one starts with this line.
\<close>

definition new_move :: "config \<Rightarrow> host \<Rightarrow> split_state \<Rightarrow> pivot_line \<Rightarrow> pyerr + split_state" where
  "new_move cfg h st l =
     bind_err
       (case cur_move st of
          Some m \<Rightarrow>
            if length (mv_line_ids m) \<le> 1 then
              bind_err (dict_item l ''line'') (\<lambda>n.
              bind_err (fmt_d n) (\<lambda>i. Inl (UserError (OnlyOneLine i))))
            else Inr (st_moves st @ [m])
        | None \<Rightarrow> Inr (st_moves st))
       (\<lambda>ms.
     bind_err (prepare_move cfg l) (\<lambda>m.
     bind_err (prepare_move_line l (next_seq h)) (\<lambda>ml.
     bind_err (dict_item l ''date'') (\<lambda>d.
     bind_err (dict_item l ''journal_id'') (\<lambda>j.
       Inr (st\<lparr>st_moves := ms,
               cur_move := Some (m\<lparr>mv_line_ids := [ml]\<rparr>),
               cur_date := d,
               cur_move_name := dict_get l ''move_name'',
               cur_journal_id := j,
               cur_balance := Finite 0\<rparr>))))))"

text \<open>\<^verbatim>\<open>cur_balance += l['credit'] - l['debit']\<close>\<close>

definition add_balance :: "split_state \<Rightarrow> pivot_line \<Rightarrow> pyerr + split_state" where
  "add_balance st l =
     bind_err (dict_item l ''credit'') (\<lambda>c.
     bind_err (dict_item l ''debit'') (\<lambda>d.
     bind_err (as_number c) (\<lambda>cn.
     bind_err (as_number d) (\<lambda>dn.
       Inr (st\<lparr>cur_balance := fadd (cur_balance st) (fsub cn dn)\<rparr>)))))"

definition split_line :: "config \<Rightarrow> host \<Rightarrow> split_state \<Rightarrow> pivot_line \<Rightarrow> pyerr + split_state" where
  "split_line cfg h st l =
     bind_err (is_null_line cfg h l) (\<lambda>null.
       if null then
         bind_err (dict_item l ''line'') (\<lambda>n. Inr (st\<lparr>st_log := st_log st @ [SkipNullLine n]\<rparr>))
       else
         bind_err (same_move cfg h st l) (\<lambda>(same, errs).
         bind_err
           (if list_all (\<lambda>b. b) same then append_line h (st\<lparr>st_errors := errs\<rparr>) l
            else new_move cfg h (st\<lparr>st_errors := errs\<rparr>) l)
           (\<lambda>st'. add_balance st' l)))"

fun fold_err :: "('s \<Rightarrow> 'a \<Rightarrow> 'e + 's) \<Rightarrow> 'a list \<Rightarrow> 's \<Rightarrow> 'e + 's" where
  "fold_err f [] s = Inr s"
| "fold_err f (x # xs) s = (case f s x of Inl e \<Rightarrow> Inl e | Inr s' \<Rightarrow> fold_err f xs s')"

definition split_pivot :: "config \<Rightarrow> host \<Rightarrow> pivot_line list \<Rightarrow> pyerr + split_state" where
  "split_pivot cfg h pivot = fold_err (split_line cfg h) pivot init_state"

text \<open>
  After the loop the current move, when there is one, is emitted, and a balance that is
  not zero for the currency is an error.
\<close>

definition close_moves :: "host \<Rightarrow> split_state \<Rightarrow> pyerr + move list" where
  "close_moves h st =
     (let ms = (case cur_move st of Some m \<Rightarrow> st_moves st @ [m] | None \<Rightarrow> st_moves st)
      in if \<not> is_zero h (cur_balance st) then Inl (UserError (NotBalanced (cur_balance st)))
         else Inr ms)"

definition extract_moves :: "config \<Rightarrow> host \<Rightarrow> pivot_line list \<Rightarrow> pyerr + move list" where
  "extract_moves cfg h pivot = bind_err (split_pivot cfg h pivot) (close_moves h)"

text \<open>
  The whole function: its result is the list of entries it hands to
  \<^verbatim>\<open>account.move.create\<close>, in order; an exception means that none was created.
\<close>

definition create_moves_from_pivot ::
  "speeddict \<Rightarrow> config \<Rightarrow> host \<Rightarrow> pivot_line list \<Rightarrow> pyerr + move list" where
  "create_moves_from_pivot sd cfg h pivot =
     bind_err (validate_pivot sd h pivot) (\<lambda>(pivot', lg). extract_moves cfg h pivot')"

text \<open>The running balance the splitter keeps, recomputed over an emitted entry's lines.\<close>

definition move_balance :: "move \<Rightarrow> pyfloat" where
  "move_balance m =
     foldl (\<lambda>b ml. fadd b (fsub (num_val (ml_credit ml)) (num_val (ml_debit ml))))
       (Finite 0) (mv_line_ids m)"

text \<open>
  What the loop keeps true: every entry already emitted has two lines or more, there is a
  current entry as soon as one was emitted, and the running balance is the balance of
  the current entry, which has a line.
\<close>

definition split_inv :: "split_state \<Rightarrow> bool" where
  "split_inv st =
     (list_all (\<lambda>m. 2 \<le> length (mv_line_ids m)) (st_moves st) \<and>
      (case cur_move st of
         None \<Rightarrow> st_moves st = []
       | Some m \<Rightarrow> mv_line_ids m \<noteq> [] \<and> cur_balance st = move_balance m))"

text \<open>What the validation leaves of a line: the keys the splitter reads, with numbers as amounts.\<close>

definition validated :: "pivot_line \<Rightarrow> bool" where
  "validated l =
     (is_number (dict_get l ''credit'') \<and> is_number (dict_get l ''debit'') \<and>
      l ''journal_id'' \<noteq> None \<and> l ''date'' \<noteq> None \<and> l ''account_id'' \<noteq> None \<and>
      l ''line'' \<noteq> None)"

section \<open>The reconciler: \<^verbatim>\<open>reconcile_move_lines\<close>\<close>

text \<open>
  The journal items are records of the database: an item has its amounts, its account,
  its partner (\<open>None\<close> for the empty record set) and its import tag (\<open>None\<close> for
  \<^verbatim>\<open>False\<close>).  The search keeps the items of the created entries whose tag is set.
\<close>

record account =
  acc_id :: int
  acc_code :: string
  acc_display_name :: string
  acc_reconcile :: bool

record move_item =
  item_id :: int
  item_credit :: pyfloat
  item_debit :: pyfloat
  item_account :: account
  item_partner :: "int option"
  item_import_reconcile :: "string option"

text \<open>\<^verbatim>\<open>d[k] = True\<close> on a dictionary used as a set: the keys in insertion order.\<close>

definition add_key :: "'a \<Rightarrow> 'a list \<Rightarrow> 'a list" where
  "add_key k ks = (if k \<in> set ks then ks else ks @ [k])"

text \<open>\<^verbatim>\<open>line.partner_id.id or False\<close>: \<open>None\<close> stands for \<^verbatim>\<open>False\<close>.\<close>

definition partner_key :: "move_item \<Rightarrow> int option" where
  "partner_key line =
     (case item_partner line of Some i \<Rightarrow> (if i \<noteq> 0 then Some i else None) | None \<Rightarrow> None)"

text \<open>The dictionary \<^verbatim>\<open>torec\<close>: the items of each tag, in the order of the search.\<close>

definition add_to_group ::
  "move_item \<Rightarrow> (string \<times> move_item list) list \<Rightarrow> (string \<times> move_item list) list" where
  "add_to_group line torec =
     (case item_import_reconcile line of
        None \<Rightarrow> torec
      | Some tag \<Rightarrow>
          (case map_of torec tag of
             Some ls \<Rightarrow> AList.update tag (add_key line ls) torec
           | None \<Rightarrow> torec @ [(tag, [line])]))"

definition group_by_tag :: "move_item list \<Rightarrow> (string \<times> move_item list) list" where
  "group_by_tag lines =
     fold add_to_group (filter (\<lambda>line. item_import_reconcile line \<noteq> None) lines) []"

definition group_total :: "move_item list \<Rightarrow> pyfloat" where
  "group_total lines =
     fold (\<lambda>line total. fsub (fadd total (item_credit line)) (item_debit line)) lines (Finite 0)"

definition group_accounts :: "move_item list \<Rightarrow> account list" where
  "group_accounts lines = fold (\<lambda>line accounts. add_key (item_account line) accounts) lines []"

definition group_partners :: "move_item list \<Rightarrow> int option list" where
  "group_partners lines = fold (\<lambda>line partners. add_key (partner_key line) partners) lines []"

text \<open>
  What the loop body does with one group: it skips it with a warning, or calls
  \<^verbatim>\<open>reconcile()\<close> on it, or raises.  The warning of the last test joins the keys of
  \<^verbatim>\<open>partners\<close>, which are integers or \<^verbatim>\<open>False\<close>, with \<^verbatim>\<open>', '.join\<close>: a
  \<^verbatim>\<open>TypeError\<close>, raised while the arguments of the warning are evaluated.
\<close>

datatype outcome = Skip log_event | Link "move_item list"

definition reconcile_group :: "host \<Rightarrow> string \<Rightarrow> move_item list \<Rightarrow> pyerr + outcome" where
  "reconcile_group h rec_ref lines_to_rec =
     (if length lines_to_rec < 2 then Inr (Skip (SkipOnlyOneLine rec_ref))
      else
        (let total = group_total lines_to_rec;
             accounts = group_accounts lines_to_rec;
             partners = group_partners lines_to_rec
         in if \<not> is_zero h total then Inr (Skip (SkipNotBalanced rec_ref total))
            else if length accounts > 1 then
              Inr (Skip (SkipDifferentAccounts rec_ref (map acc_code accounts)))
            else
              (case accounts of
                 [] \<Rightarrow> Inl IndexError
               | a # as \<Rightarrow>
                   if \<not> acc_reconcile a then
                     Inr (Skip (SkipNotReconcilable rec_ref (acc_display_name a)))
                   else if length partners > 1 then Inl TypeError
                   else Inr (Link lines_to_rec))))"

fun reconcile_groups ::
  "host \<Rightarrow> (string \<times> move_item list) list \<Rightarrow> pyerr + outcome list" where
  "reconcile_groups h [] = Inr []"
| "reconcile_groups h ((rec_ref, lines_to_rec) # torec) =
     (case reconcile_group h rec_ref lines_to_rec of
        Inl e \<Rightarrow> Inl e
      | Inr out \<Rightarrow>
          (case reconcile_groups h torec of Inl e \<Rightarrow> Inl e | Inr outs \<Rightarrow> Inr (out # outs)))"

definition reconcile_move_lines :: "host \<Rightarrow> move_item list \<Rightarrow> pyerr + outcome list" where
  "reconcile_move_lines h lines = reconcile_groups h (group_by_tag lines)"

text \<open>The conditions of the specification for a group that may be linked.\<close>

definition linkable :: "host \<Rightarrow> move_item list \<Rightarrow> bool" where
  "linkable h ls =
     (2 \<le> length ls \<and> is_zero h (group_total ls) \<and>
      length (remdups (map item_account ls)) = 1 \<and>
      list_all (\<lambda>line. acc_reconcile (item_account line)) ls \<and>
      length (remdups (map partner_key ls)) \<le> 1)"

section \<open>The FEC and Nibelis parsers\<close>

text \<open>
  Both read the file through \<^verbatim>\<open>csv.DictReader\<close> with their own column names.  The
  reader is the host's: for an encoding and a delimiter it gives the rows of the file, a
  row giving each column name its text, or \<open>None\<close> when the row is too short.
  \<^verbatim>\<open>csv.Sniffer().sniff\<close> gives the FEC file's delimiter or raises.
\<close>

type_synonym csv_row = "string \<Rightarrow> string option"

definition cell :: "string option \<Rightarrow> pval" where
  "cell c = (case c of Some s \<Rightarrow> VStr s | None \<Rightarrow> VNone)"

text \<open>\<^verbatim>\<open>l[k] or '0'\<close>\<close>

definition or_zero :: "string option \<Rightarrow> string" where
  "or_zero c = (case c of Some s \<Rightarrow> (if s \<noteq> [] then s else ''0'') | None \<Rightarrow> ''0'')"

definition to_float :: "host \<Rightarrow> string \<Rightarrow> pyerr + pyfloat" where
  "to_float h s = (case py_float h s of Some r \<Rightarrow> Inr r | None \<Rightarrow> Inl ValueError)"

definition to_date :: "host \<Rightarrow> string option \<Rightarrow> string \<Rightarrow> pyerr + pydate" where
  "to_date h c fmt =
     (case c of
        None \<Rightarrow> Inl TypeError
      | Some s \<Rightarrow> (case strptime h s fmt of Some d \<Rightarrow> Inr d | None \<Rightarrow> Inl ValueError))"

definition fec_vals :: "host \<Rightarrow> int \<Rightarrow> csv_row \<Rightarrow> pyerr + pivot_line" where
  "fec_vals h i l =
     bind_err (to_float h (comma_to_dot (or_zero (l ''credit'')))) (\<lambda>credit.
     bind_err (to_float h (comma_to_dot (or_zero (l ''debit'')))) (\<lambda>debit.
     bind_err (to_date h (l ''date'') ''%Y%m%d'') (\<lambda>date.
       Inr [''journal'' \<mapsto> cell (l ''journal''),
            ''move_name'' \<mapsto> cell (l ''move_name''),
            ''account'' \<mapsto> cell (l ''account''),
            ''partner'' \<mapsto> cell (l ''partner_ref''),
            ''credit'' \<mapsto> VFloat credit,
            ''debit'' \<mapsto> VFloat debit,
            ''date'' \<mapsto> VDate date,
            ''name'' \<mapsto> cell (l ''name''),
            ''ref'' \<mapsto> cell (l ''ref''),
            ''reconcile_ref'' \<mapsto> cell (l ''reconcile_ref''),
            ''line'' \<mapsto> VInt i])))"

text \<open>
  \<^verbatim>\<open>l['amount'].replace\<close> needs a string; \<^verbatim>\<open>l['sign'] == 'C' and amount or False\<close>
  is the amount when the sign matches and the amount is not zero.
\<close>

definition signed_amount :: "string option \<Rightarrow> string \<Rightarrow> pyfloat \<Rightarrow> pval" where
  "signed_amount sign s amount =
     (if sign = Some s \<and> amount \<noteq> Finite 0 then VFloat amount else VBool False)"

definition nibelis_vals :: "host \<Rightarrow> int \<Rightarrow> csv_row \<Rightarrow> pyerr + pivot_line" where
  "nibelis_vals h i l =
     bind_err (case l ''amount'' of None \<Rightarrow> Inl AttributeError
               | Some s \<Rightarrow> to_float h (comma_to_dot s)) (\<lambda>amount.
     bind_err (to_date h (l ''date'') ''%y%m%d'') (\<lambda>date.
       (let vals = [''journal'' \<mapsto> cell (l ''journal''),
                    ''account'' \<mapsto> cell (l ''account''),
                    ''credit'' \<mapsto> signed_amount (l ''sign'') ''C'' amount,
                    ''debit'' \<mapsto> signed_amount (l ''sign'') ''D'' amount,
                    ''date'' \<mapsto> VDate date,
                    ''name'' \<mapsto> cell (l ''name''),
                    ''line'' \<mapsto> VInt i]
        in Inr (if truthy (cell (l ''analytic'')) then vals(''analytic'' \<mapsto> cell (l ''analytic''))
                else vals))))"

text \<open>
  The loop of both parsers: \<open>i\<close> counts the rows read so far; the row that makes it 1
  is passed over, every other row gives a line or raises.
\<close>

fun skip_first_rows ::
  "(int \<Rightarrow> csv_row \<Rightarrow> pyerr + pivot_line) \<Rightarrow> int \<Rightarrow> csv_row list \<Rightarrow> pyerr + pivot_line list" where
  "skip_first_rows vals i [] = Inr []"
| "skip_first_rows vals i (l # ls) =
     (if i + 1 = 1 then skip_first_rows vals (i + 1) ls
      else
        (case vals (i + 1) l of
           Inl e \<Rightarrow> Inl e
         | Inr v \<Rightarrow>
             (case skip_first_rows vals (i + 1) ls of
                Inl e \<Rightarrow> Inl e
              | Inr vs \<Rightarrow> Inr (v # vs))))"

definition fectxt2pivot ::
  "config \<Rightarrow> host \<Rightarrow> char option \<Rightarrow> (string \<Rightarrow> char \<Rightarrow> csv_row list) \<Rightarrow> pyerr + pivot_line list" where
  "fectxt2pivot cfg h dialect reader =
     (case dialect of
        None \<Rightarrow> Inl CsvError
      | Some delimiter \<Rightarrow> skip_first_rows (fec_vals h) 0 (reader (file_encoding cfg) delimiter))"

definition nibelis2pivot ::
  "config \<Rightarrow> host \<Rightarrow> (string \<Rightarrow> char \<Rightarrow> csv_row list) \<Rightarrow> pyerr + pivot_line list" where
  "nibelis2pivot cfg h reader = skip_first_rows (nibelis_vals h) 0 (reader ''latin1'' CHR '';'')"

definition line_numbers :: "pivot_line list \<Rightarrow> pval option list" where
  "line_numbers pivot = map (\<lambda>l. l ''line'') pivot"

section \<open>A host and a directory for the examples\<close>

text \<open>
  The examples below run the definitions on concrete input.  Their host reads a text of
  decimal digits and the text \<^verbatim>\<open>nan\<close> as Python's \<^verbatim>\<open>float\<close> does and rejects every
  other text (the examples use only such texts and texts Python rejects too); it knows
  the dates of the examples in the formats of the source; a finite amount is zero for
  its currency when it rounds to zero at two decimals, and no other amount is.
\<close>

definition digit_val :: "char \<Rightarrow> nat" where
  "digit_val c = of_char c - 48"

definition is_digit :: "char \<Rightarrow> bool" where
  "is_digit c = (48 \<le> (of_char c :: nat) \<and> (of_char c :: nat) \<le> 57)"

definition test_float :: "string \<Rightarrow> pyfloat option" where
  "test_float s =
     (if s \<noteq> [] \<and> list_all is_digit s
      then Some (Finite (of_nat (foldl (\<lambda>n c. 10 * n + digit_val c) 0 s)))
      else if s = ''nan'' then Some NaN
      else None)"

definition test_strptime :: "string \<Rightarrow> string \<Rightarrow> pydate option" where
  "test_strptime s fmt =
     (if fmt = ''%Y%m%d'' \<and> s = ''20240101'' then Some (2024, 1, 1)
      else if fmt = ''%y%m%d'' \<and> s = ''240101'' then Some (2024, 1, 1)
      else if fmt = ''%Y-%m-%d'' \<and> s = ''2024-01-01'' then Some (2024, 1, 1)
      else None)"

definition test_host :: host where
  "test_host =
     \<lparr>py_float = test_float, strptime = test_strptime,
      is_zero = (\<lambda>x. case x of Finite r \<Rightarrow> \<bar>r\<bar> < 1 / 200 | _ \<Rightarrow> False),
      next_seq = ''7''\<rparr>"

definition test_dir :: speeddict where
  "test_dir =
     \<lparr>sd_partner = [(''R1242'', 11)],
      sd_journal = [(''VT'', 1), (''BNK'', 2)],
      sd_account = [(''6110'', 61), (''411000XX'', 41)],
      sd_analytic = [(''ADM'', 5)]\<rparr>"

text \<open>A line as the generic parsers and the normalizer leave it.\<close>

definition test_line :: "int \<Rightarrow> string \<Rightarrow> string \<Rightarrow> rat \<Rightarrow> rat \<Rightarrow> pivot_line" where
  "test_line n journal account debit credit =
     [''line'' \<mapsto> VInt n, ''journal'' \<mapsto> VStr journal, ''account'' \<mapsto> VStr account,
      ''date'' \<mapsto> VDate (2024, 1, 1), ''name'' \<mapsto> VStr ''label'',
      ''debit'' \<mapsto> VFloat (Finite debit), ''credit'' \<mapsto> VFloat (Finite credit)]"

text \<open>A row of a delimited file, from its cells by column name.\<close>

definition test_row :: "(string \<times> string) list \<Rightarrow> csv_row" where
  "test_row cells = map_of cells"

text \<open>A FEC file and a Nibelis file of two rows each, as the reader gives them.\<close>

definition fec_reader :: "string \<Rightarrow> char \<Rightarrow> csv_row list" where
  "fec_reader enc d =
     [test_row [(''journal'', ''JournalCode''), (''debit'', ''Debit''), (''credit'', ''Credit''),
                (''date'', ''EcritureDate'')],
      test_row [(''journal'', ''VT''), (''move_name'', ''M1''), (''date'', ''20240101''),
                (''account'', ''6110''), (''debit'', ''100''), (''credit'', '''')]]"

definition nibelis_reader :: "string \<Rightarrow> char \<Rightarrow> csv_row list" where
  "nibelis_reader enc d =
     [test_row [(''journal'', ''Journal''), (''amount'', ''Montant''), (''sign'', ''Sens'')],
      test_row [(''journal'', ''VT''), (''date'', ''240101''), (''account'', ''6110''),
                (''amount'', ''100''), (''sign'', ''D''), (''name'', ''label'')]]"

text \<open>
  The line \<open>test_line\<close> with account 6110 after the resolver (journal 1 is \<^verbatim>\<open>VT\<close>,
  any other \<^verbatim>\<open>BNK\<close>), and the entry and entry line made of it.
\<close>

definition resolved_line :: "int \<Rightarrow> int \<Rightarrow> rat \<Rightarrow> rat \<Rightarrow> pivot_line" where
  "resolved_line n k d c =
     (test_line n (if k = 1 then ''VT'' else ''BNK'') ''6110'' d c)
       (''account_id'' \<mapsto> VInt 61, ''journal_id'' \<mapsto> VInt k)"

definition test_move_line :: "int \<Rightarrow> rat \<Rightarrow> rat \<Rightarrow> move_line" where
  "test_move_line n d c =
     \<lparr>ml_credit = VFloat (Finite c), ml_debit = VFloat (Finite d), ml_name = VStr ''label'',
      ml_partner_id = VNone, ml_account_id = VInt 61, ml_analytic_distribution = VNone,
      ml_import_reconcile = VNone, ml_import_external_id = (''7'', VInt n)\<rparr>"

definition test_move :: "int \<Rightarrow> move_line list \<Rightarrow> move" where
  "test_move k mls =
     \<lparr>mv_journal_id = VInt k, mv_ref = VNone, mv_date = VDate (2024, 1, 1), mv_name = None,
      mv_line_ids = mls\<rparr>"

text \<open>Journal items carrying the tag \<^verbatim>\<open>A1\<close> on one account that allows reconciliation.\<close>

definition test_account :: account where
  "test_account =
     \<lparr>acc_id = 41, acc_code = ''411000'', acc_display_name = ''411000 Customers'',
      acc_reconcile = True\<rparr>"

definition test_item :: "int \<Rightarrow> rat \<Rightarrow> rat \<Rightarrow> int option \<Rightarrow> move_item" where
  "test_item n debit credit partner =
     \<lparr>item_id = n, item_credit = Finite credit, item_debit = Finite debit,
      item_account = test_account,
      item_partner = partner, item_import_reconcile = Some ''A1''\<rparr>"

section \<open>Properties of the normalizer\<close>

lemma dropWhile_rev_dropWhile:
  "dropWhile P (rev (dropWhile P (rev (dropWhile P s)))) = rev (dropWhile P (rev (dropWhile P s)))"
proof -
  define t where "t = dropWhile P s"
  define u where "u = dropWhile P (rev t)"
  have "rev t = takeWhile P (rev t) @ u" by (simp add: u_def)
  hence t_eq: "t = rev u @ rev (takeWhile P (rev t))" by (metis rev_append rev_rev_ident)
  have "dropWhile P (rev u) = rev u"
  proof (cases "u = []")
    case False
    hence "rev u \<noteq> []" by simp
    hence "hd (rev u) = hd t" using t_eq by (metis hd_append2)
    moreover have "t \<noteq> []" using t_eq False by auto
    hence "\<not> P (hd t)" unfolding t_def by (rule hd_dropWhile)
    ultimately show ?thesis by (simp add: dropWhile_eq_self_iff)
  qed simp
  thus ?thesis by (simp add: t_def u_def)
qed

lemma py_strip_idem: "py_strip (py_strip s) = py_strip s"
  by (simp add: py_strip_def dropWhile_rev_dropWhile)

lemma clean_value_idem: "clean_value (clean_value v) = clean_value v"
  by (cases v) (auto simp: clean_value_def py_strip_idem)

lemma clean_value_falsy: "\<not> truthy (clean_value v) \<Longrightarrow> clean_value v = VBool False"
  by (cases v) (auto simp: clean_value_def split: if_splits)

lemma force_str_apply:
  "force_str f k l x = (if x = k \<and> (\<exists>s. f = Some s \<and> s \<noteq> []) then map_option VStr f else l x)"
  by (auto simp: force_str_def split: option.splits)

lemma default_zero_Inr:
  "default_zero k l = Inr l' \<longleftrightarrow> l k \<noteq> None \<and> l' = (\<lambda>x. if x = k then map_option zero_if_false (l x) else l x)"
proof (cases "l k")
  case None
  then show ?thesis by (simp add: default_zero_def)
next
  case (Some v)
  have "(\<lambda>x. if x = k then map_option zero_if_false (l x) else l x) =
        (if \<not> truthy v then l(k \<mapsto> VFloat (Finite 0)) else l)"
    using Some by (auto simp: zero_if_false_def fun_eq_iff)
  then show ?thesis using Some by (auto simp: default_zero_def)
qed

lemma update_line_Inr:
  "update_line cfg l = Inr l' \<longleftrightarrow>
     l ''credit'' \<noteq> None \<and> l ''debit'' \<noteq> None \<and> l' = (\<lambda>k. updated_entry cfg k (l k))"
proof -
  define l4 where "l4 = force_str (force_journal_code cfg) ''journal''
     (force_str (force_move_ref cfg) ''ref'' (force_str (force_move_line_name cfg) ''name''
        (case force_move_date cfg of Some d \<Rightarrow> l(''date'' \<mapsto> VDate d) | None \<Rightarrow> l)))"
  have l4: "l4 k = (case forced_value cfg k of Some v \<Rightarrow> Some v | None \<Rightarrow> l k)" for k
    by (auto simp: l4_def force_str_apply forced_value_def split: option.splits)
  have u: "update_line cfg l = bind_err (default_zero ''credit'' l4) (default_zero ''debit'')"
    by (simp add: update_line_def l4_def Let_def)
  have c: "l4 ''credit'' = l ''credit''" "l4 ''debit'' = l ''debit''"
    by (simp_all add: l4 forced_value_def)
  show ?thesis
  proof (cases "default_zero ''credit'' l4")
    case (Inl e)
    then have "l4 ''credit'' = None" by (auto simp: default_zero_def split: option.splits)
    with Inl u c show ?thesis by simp
  next
    case (Inr l5)
    then have l5: "l ''credit'' \<noteq> None" "l5 = (\<lambda>x. if x = ''credit'' then map_option zero_if_false (l4 x) else l4 x)"
      using c by (auto simp: default_zero_Inr)
    have "update_line cfg l = default_zero ''debit'' l5" using u Inr by simp
    moreover have "l5 ''debit'' = l ''debit''" using l5 c by simp
    moreover have "(\<lambda>x. if x = ''debit'' then map_option zero_if_false (l5 x) else l5 x) = (\<lambda>k. updated_entry cfg k (l k))"
      by (rule ext) (auto simp: l5 l4 updated_entry_def forced_value_def split: option.splits)
    ultimately show ?thesis using l5(1) by (auto simp: default_zero_Inr)
  qed
qed

lemma updated_entry_idem:
  "updated_entry cfg k (map_option clean_value (updated_entry cfg k (map_option clean_value ov)))
     = updated_entry cfg k (map_option clean_value ov)"
proof (cases "forced_value cfg k")
  case (Some v)
  then show ?thesis by (simp add: updated_entry_def)
next
  case None
  have z: "zero_if_false (clean_value (zero_if_false (clean_value v))) = zero_if_false (clean_value v)" for v
  proof (cases "truthy (clean_value v)")
    case True
    then show ?thesis by (simp add: zero_if_false_def clean_value_idem)
  next
    case False
    then have "clean_value v = VBool False" by (rule clean_value_falsy)
    then show ?thesis by (simp add: zero_if_false_def clean_value_def)
  qed
  show ?thesis using None
    by (cases ov) (auto simp: updated_entry_def clean_value_idem z)
qed

lemma updated_entry_None: "ov \<noteq> None \<Longrightarrow> updated_entry cfg k (map_option f ov) \<noteq> None"
  by (cases ov) (auto simp: updated_entry_def split: option.splits if_splits)

lemma normal_line_fixed:
  assumes "update_line cfg (clean_strip_line l) = Inr l'"
  shows "update_line cfg (clean_strip_line l') = Inr l'"
proof -
  from assms have a: "l ''credit'' \<noteq> None" "l ''debit'' \<noteq> None"
    and l': "l' = (\<lambda>k. updated_entry cfg k (map_option clean_value (l k)))"
    by (auto simp: update_line_Inr clean_strip_line_def)
  have "l' ''credit'' \<noteq> None" "l' ''debit'' \<noteq> None"
    unfolding l' using a by (simp_all add: updated_entry_None)
  moreover have "(\<lambda>k. updated_entry cfg k (clean_strip_line l' k)) = l'"
    by (rule ext) (simp add: clean_strip_line_def l' updated_entry_idem)
  ultimately show ?thesis by (simp add: update_line_Inr clean_strip_line_def)
qed

lemma map_err_Inr_iff:
  "map_err f xs = Inr ys \<longleftrightarrow> list_all2 (\<lambda>x y. f x = Inr y) xs ys"
proof (induction xs arbitrary: ys)
  case Nil
  then show ?case by auto
next
  case (Cons x xs)
  show ?case
  proof (cases "f x")
    case (Inl e)
    then show ?thesis by (auto simp: list_all2_Cons1)
  next
    case (Inr y)
    note fx = this
    show ?thesis
    proof (cases "map_err f xs")
      case (Inl e)
      then have "\<not> list_all2 (\<lambda>x y. f x = Inr y) xs zs" for zs
        using Cons.IH[of zs] by simp
      then show ?thesis using fx Inl by (auto simp: list_all2_Cons1)
    next
      case (Inr zs)
      then have "list_all2 (\<lambda>x y. f x = Inr y) xs ws \<longleftrightarrow> ws = zs" for ws
        using Cons.IH[of ws] by auto
      then show ?thesis using fx Inr by (auto simp: list_all2_Cons1)
    qed
  qed
qed

text \<open>
  Claim C9.  The normalizer (\<^verbatim>\<open>clean_strip_pivot\<close> followed by \<^verbatim>\<open>update_pivot\<close>, with
  the wizard's forced values fixed) is idempotent: when it returns a pivot, running it
  again on that pivot returns the same pivot, every line unchanged.
\<close>

theorem normalizer_idempotent:
  "normalizer cfg pivot = Inr pivot' \<Longrightarrow> normalizer cfg pivot' = Inr pivot'"
  unfolding normalizer_def update_pivot_def clean_strip_pivot_def map_err_Inr_iff
  by (induction pivot arbitrary: pivot') (auto simp: list_all2_Cons1 normal_line_fixed)

theorem normalizer_idempotent_witness:
  "normalizer (default_config\<lparr>force_move_ref := Some ''X12''\<rparr>)
     [[''credit'' \<mapsto> VStr '' '', ''debit'' \<mapsto> VFloat (Finite 5), ''name'' \<mapsto> VStr '' a '']]
   = Inr [[''credit'' \<mapsto> VFloat (Finite 0), ''debit'' \<mapsto> VFloat (Finite 5), ''name'' \<mapsto> VStr ''a'',
           ''ref'' \<mapsto> VStr ''X12'']]
   \<and>
   normalizer (default_config\<lparr>force_move_ref := Some ''X12''\<rparr>)
     [[''credit'' \<mapsto> VFloat (Finite 0), ''debit'' \<mapsto> VFloat (Finite 5), ''name'' \<mapsto> VStr ''a'',
       ''ref'' \<mapsto> VStr ''X12'']]
   = Inr [[''credit'' \<mapsto> VFloat (Finite 0), ''debit'' \<mapsto> VFloat (Finite 5), ''name'' \<mapsto> VStr ''a'',
           ''ref'' \<mapsto> VStr ''X12'']]"
proof -
  let ?cfg = "default_config\<lparr>force_move_ref := Some ''X12''\<rparr>"
  let ?l0 = "[''credit'' \<mapsto> VStr '' '', ''debit'' \<mapsto> VFloat (Finite 5), ''name'' \<mapsto> VStr '' a '']"
  let ?l1 = "[''credit'' \<mapsto> VFloat (Finite 0), ''debit'' \<mapsto> VFloat (Finite 5), ''name'' \<mapsto> VStr ''a'',
           ''ref'' \<mapsto> VStr ''X12'']"
  have s1: "py_strip '' '' = []" and s2: "py_strip '' a '' = ''a''"
    by (simp_all add: py_strip_def py_isspace_def)
  have "(\<lambda>k. updated_entry ?cfg k (clean_strip_line ?l0 k)) = ?l1"
    by (rule ext)
      (simp add: clean_strip_line_def updated_entry_def forced_value_def zero_if_false_def
        clean_value_def s1 s2 default_config_def)
  then have line: "update_line ?cfg (clean_strip_line ?l0) = Inr ?l1"
    by (simp add: update_line_Inr clean_strip_line_def)
  have first: "normalizer ?cfg [?l0] = Inr [?l1]"
    using line by (simp add: normalizer_def update_pivot_def clean_strip_pivot_def)
  from first normalizer_idempotent [OF first] show ?thesis by simp
qed

section \<open>Properties of the FEC and Nibelis parsers\<close>

lemma test_float_100: "test_float ''100'' = Some (Finite 100)"
  by (simp add: test_float_def is_digit_def digit_val_def)

lemma test_float_0: "test_float ''0'' = Some (Finite 0)"
  by (simp add: test_float_def is_digit_def digit_val_def)

lemma test_float_150: "test_float ''150'' = Some (Finite 150)"
  by (simp add: test_float_def is_digit_def digit_val_def)

lemma test_float_abc: "test_float ''abc'' = None"
  by (simp add: test_float_def is_digit_def digit_val_def)

lemma test_float_nan: "test_float ''nan'' = Some NaN"
  by (simp add: test_float_def is_digit_def digit_val_def)

lemma skip_first_rows_first:
  "skip_first_rows vals 0 (r # rs) = skip_first_rows vals 1 rs"
  by simp

lemma skip_first_rows_lines:
  assumes "\<And>n l v. vals n l = Inr v \<Longrightarrow> v ''line'' = Some (VInt n)"
    and "1 \<le> i" and "skip_first_rows vals i rs = Inr vs"
  shows "line_numbers vs = map (\<lambda>n. Some (VInt n)) [i + 1 .. i + int (length rs)]"
  using assms(2,3)
proof (induction rs arbitrary: i vs)
  case Nil
  then show ?case by (simp add: line_numbers_def)
next
  case (Cons r rs)
  from Cons.prems obtain v vs' where v: "vals (i + 1) r = Inr v"
    and vs': "skip_first_rows vals (i + 1) rs = Inr vs'" and vs: "vs = v # vs'"
    by (auto split: sum.splits)
  have "line_numbers vs' = map (\<lambda>n. Some (VInt n)) [i + 1 + 1 .. i + 1 + int (length rs)]"
    using Cons.IH[of "i + 1" vs'] Cons.prems(1) vs' by simp
  moreover have "[i + 1 .. i + int (length (r # rs))] = (i + 1) # [i + 1 + 1 .. i + 1 + int (length rs)]"
    by (simp add: upto_rec1 add.assoc)
  ultimately show ?case using assms(1)[OF v] vs by (simp add: line_numbers_def)
qed

lemma fec_vals_line: "fec_vals h n l = Inr v \<Longrightarrow> v ''line'' = Some (VInt n)"
  by (cases "to_float h (comma_to_dot (or_zero (l ''credit'')))";
      cases "to_float h (comma_to_dot (or_zero (l ''debit'')))";
      cases "to_date h (l ''date'') ''%Y%m%d''") (auto simp: fec_vals_def)

lemma nibelis_vals_line: "nibelis_vals h n l = Inr v \<Longrightarrow> v ''line'' = Some (VInt n)"
  by (cases "l ''amount''"; (cases "to_float h (comma_to_dot (the (l ''amount'')))")?;
      cases "to_date h (l ''date'') ''%y%m%d''") (auto simp: nibelis_vals_def Let_def)

lemma skip_first_rows_numbers:
  assumes "\<And>n l v. vals n l = Inr v \<Longrightarrow> v ''line'' = Some (VInt n)"
    and "skip_first_rows vals 0 rows = Inr pivot"
  shows "line_numbers pivot = map (\<lambda>n. Some (VInt n)) [2 .. int (length rows)]"
proof (cases rows)
  case Nil
  with assms(2) show ?thesis by (simp add: line_numbers_def)
next
  case (Cons r rs)
  with assms(2) have "skip_first_rows vals 1 rs = Inr pivot" by simp
  from skip_first_rows_lines[of vals 1 rs pivot] assms(1) this Cons
  show ?thesis by (simp add: add.commute)
qed

lemma fec_numbers:
  "skip_first_rows (fec_vals h) 0 rows = Inr pivot \<Longrightarrow>
     line_numbers pivot = map (\<lambda>n. Some (VInt n)) [2 .. int (length rows)]"
  by (rule skip_first_rows_numbers[of "fec_vals h"]) (auto dest: fec_vals_line)

lemma nibelis_numbers:
  "skip_first_rows (nibelis_vals h) 0 rows = Inr pivot \<Longrightarrow>
     line_numbers pivot = map (\<lambda>n. Some (VInt n)) [2 .. int (length rows)]"
  by (rule skip_first_rows_numbers[of "nibelis_vals h"]) (auto dest: nibelis_vals_line)

text \<open>
  Claim C10.  The FEC and Nibelis parsers pass over the first row of the file whatever
  the option \<^verbatim>\<open>file_with_header\<close> says: their result does not depend on the option,
  it is the result of reading the rows after the first with the counter at 1, and when
  they return a pivot its lines carry the numbers 2, 3, ... up to the number of rows, so
  that the first line produced has number 2.
\<close>

theorem parsers_discard_first_row:
  "fectxt2pivot (cfg\<lparr>file_with_header := b\<rparr>) h dialect reader = fectxt2pivot cfg h dialect reader
   \<and> nibelis2pivot (cfg\<lparr>file_with_header := b\<rparr>) h reader = nibelis2pivot cfg h reader
   \<and> (reader (file_encoding cfg) delimiter = r # rs \<longrightarrow>
        fectxt2pivot cfg h (Some delimiter) reader = skip_first_rows (fec_vals h) 1 rs)
   \<and> (reader ''latin1'' CHR '';'' = r # rs \<longrightarrow>
        nibelis2pivot cfg h reader = skip_first_rows (nibelis_vals h) 1 rs)
   \<and> (fectxt2pivot cfg h (Some delimiter) reader = Inr pivot \<longrightarrow>
        line_numbers pivot =
          map (\<lambda>n. Some (VInt n)) [2 .. int (length (reader (file_encoding cfg) delimiter))])
   \<and> (nibelis2pivot cfg h reader = Inr pivot' \<longrightarrow>
        line_numbers pivot' =
          map (\<lambda>n. Some (VInt n)) [2 .. int (length (reader ''latin1'' CHR '';''))])"
  by (cases dialect)
    (auto simp: fectxt2pivot_def nibelis2pivot_def fec_numbers nibelis_numbers)

theorem parsers_discard_first_row_witness:
  "\<exists>pivot pivot'.
     fectxt2pivot default_config test_host (Some CHR ''|'') fec_reader = Inr pivot \<and>
     fectxt2pivot (default_config\<lparr>file_with_header := True\<rparr>) test_host (Some CHR ''|'')
       fec_reader = Inr pivot \<and>
     line_numbers pivot = [Some (VInt 2)] \<and>
     nibelis2pivot default_config test_host nibelis_reader = Inr pivot' \<and>
     nibelis2pivot (default_config\<lparr>file_with_header := True\<rparr>) test_host nibelis_reader
       = Inr pivot' \<and>
     line_numbers pivot' = [Some (VInt 2)]"
proof -
  note inst = parsers_discard_first_row[where cfg = default_config and b = True and h = test_host
      and dialect = "Some CHR ''|''" and delimiter = "CHR ''|''"]
  have "\<exists>pivot. fectxt2pivot default_config test_host (Some CHR ''|'') fec_reader = Inr pivot"
    by (simp add: fectxt2pivot_def fec_reader_def fec_vals_def test_row_def to_float_def
        to_date_def or_zero_def comma_to_dot_def test_host_def test_float_100 test_float_0
        test_strptime_def default_config_def)
  then obtain pivot
    where p: "fectxt2pivot default_config test_host (Some CHR ''|'') fec_reader = Inr pivot"
    by blast
  have "\<exists>pivot. nibelis2pivot default_config test_host nibelis_reader = Inr pivot"
    by (simp add: nibelis2pivot_def nibelis_reader_def nibelis_vals_def test_row_def to_float_def
        to_date_def comma_to_dot_def test_host_def test_float_100 test_strptime_def cell_def Let_def)
  then obtain pivot'
    where p': "nibelis2pivot default_config test_host nibelis_reader = Inr pivot'"
    by blast
  have "line_numbers pivot = [Some (VInt 2)]"
    using inst[where reader = fec_reader and pivot = pivot] p
    by (simp add: fec_reader_def default_config_def)
  moreover have "fectxt2pivot (default_config\<lparr>file_with_header := True\<rparr>) test_host
      (Some CHR ''|'') fec_reader = Inr pivot"
    using inst[where reader = fec_reader] p by simp
  moreover have "line_numbers pivot' = [Some (VInt 2)]"
    using inst[where reader = nibelis_reader and pivot' = pivot'] p'
    by (simp add: nibelis_reader_def)
  moreover have "nibelis2pivot (default_config\<lparr>file_with_header := True\<rparr>) test_host
      nibelis_reader = Inr pivot'"
    using inst[where reader = nibelis_reader] p' by simp
  ultimately show ?thesis using p p' by blast
qed

section \<open>Properties of the account resolution\<close>

lemma trailing_zeros_snoc:
  "trailing_zeros (code @ [c]) = (if c = CHR ''0'' then Suc (trailing_zeros code) else 0)"
  by (simp add: trailing_zeros_def)

lemma truncations_snoc_zero:
  "truncations (code @ ''0'') = code # truncations code"
proof -
  have "[1 ..< Suc (Suc (trailing_zeros code))] = 1 # map Suc [1 ..< Suc (trailing_zeros code)]"
    by (simp add: upt_conv_Cons map_Suc_upt del: upt_Suc)
  then show ?thesis
    by (simp add: truncations_def trailing_zeros_snoc comp_def del: upt_Suc)
qed

lemma truncations_no_zero:
  "code = [] \<or> last code \<noteq> CHR ''0'' \<Longrightarrow> truncations code = []"
  by (cases code rule: rev_cases) (auto simp: truncations_def trailing_zeros_def)

lemma strip_zeros_find:
  "strip_zeros d code =
     (case List.find (\<lambda>c. c \<noteq> [] \<and> map_of d c \<noteq> None) (truncations code) of
        Some c \<Rightarrow> map_of d c
      | None \<Rightarrow> None)"
proof (induction d code rule: strip_zeros.induct)
  case (1 d code)
  show ?case
  proof (cases "code \<noteq> [] \<and> last code = CHR ''0''")
    case False
    then have "truncations code = []" by (intro truncations_no_zero) auto
    with False show ?thesis by (subst strip_zeros.simps) auto
  next
    case True
    then have code: "code = butlast code @ ''0''" by (metis append_butlast_last_id)
    have t: "truncations code = butlast code # truncations (butlast code)"
      by (subst code) (simp only: truncations_snoc_zero butlast_snoc)
    show ?thesis
    proof (cases "butlast code \<noteq> [] \<and> map_of d (butlast code) \<noteq> None")
      case hit: True
      with True show ?thesis by (subst strip_zeros.simps) (simp add: t Let_def)
    next
      case miss: False
      have "strip_zeros d code = strip_zeros d (butlast code)"
        using True miss by (subst strip_zeros.simps) (auto simp: Let_def)
      also have "\<dots> = (case List.find (\<lambda>c. c \<noteq> [] \<and> map_of d c \<noteq> None) (truncations (butlast code)) of
          Some c \<Rightarrow> map_of d c | None \<Rightarrow> None)"
        using "1.IH"[OF True refl] miss by auto
      finally show ?thesis using miss by (auto simp: t)
    qed
  qed
qed

lemma scan_prefix_find:
  "scan_prefix d (VStr s) = Inr (List.find (\<lambda>(c, i). prefix s c) d)"
  by (induction d) auto

lemma find_truncation:
  "List.find (\<lambda>c. c \<noteq> [] \<and> map_of d c \<noteq> None) cs = Some c \<Longrightarrow> \<exists>i. map_of d c = Some i"
  by (auto simp: find_Some_iff)

lemma add_code_error_map:
  "map_of (add_code_error code n bucket) =
     (map_of bucket)(code \<mapsto> (case map_of bucket code of None \<Rightarrow> [] | Some ns \<Rightarrow> ns) @ [n])"
  by (rule ext) (auto simp: add_code_error_def update_conv' map_add_def split: option.splits)

text \<open>
  The resolution order on text codes.  For a line whose account is a text code and which
  has no account yet, in a directory whose ids are not zero (database ids), the account
  is resolved in this order, stopping at the first success: the exact code; else the
  first non-empty code, got by taking trailing zeros off one at a time, that is in the
  directory; else the first directory code that starts with the code, with a warning;
  else the line number is appended to the line numbers kept under the code, and the
  line numbers kept under every other code stay as they are.  An exact match changes
  neither the errors nor the warnings.
\<close>

theorem account_resolution_order:
  assumes acc: "l ''account'' = Some (VStr code)"
    and fresh: "\<not> truthy (dict_get l ''account_id'')"
    and line: "l ''line'' = Some n"
    and ids: "0 \<notin> snd ` set (sd_account sd)"
  shows "resolve_account sd (l, errs, lg) =
     Inr (case spec_resolve_account (sd_account sd) code of
            Exact i \<Rightarrow> (l(''account_id'' \<mapsto> VInt i), errs, lg)
          | Truncated c i \<Rightarrow> (l(''account_id'' \<mapsto> VInt i), errs, lg)
          | Approximate c i \<Rightarrow>
              (l(''account_id'' \<mapsto> VInt i), errs, lg @ [ApproximateMatch (VStr code) c])
          | Unresolved \<Rightarrow>
              (l, errs\<lparr>err_account := add_code_error (VStr code) n (err_account errs)\<rparr>, lg))
     \<and> map_of (add_code_error (VStr code) n (err_account errs)) =
         (map_of (err_account errs))
           (VStr code \<mapsto>
              (case map_of (err_account errs) (VStr code) of None \<Rightarrow> [] | Some ns \<Rightarrow> ns) @ [n])"
proof -
  let ?d = "sd_account sd"
  have nz: "map_of ?d c = Some i \<Longrightarrow> i \<noteq> 0" for c i
    using ids by (metis map_of_SomeD snd_conv image_eqI)
  have bucket: "map_of (add_code_error (VStr code) n (err_account errs)) =
         (map_of (err_account errs))
           (VStr code \<mapsto>
              (case map_of (err_account errs) (VStr code) of None \<Rightarrow> [] | Some ns \<Rightarrow> ns) @ [n])"
    by (rule add_code_error_map)
  show ?thesis
  proof (cases "map_of ?d code")
    case (Some i)
    then have "i \<noteq> 0" by (rule nz)
    then show ?thesis using Some acc bucket
      by (simp add: resolve_account_def match_exact_def match_truncated_def match_prefix_def
          dict_item_def dict_get_def spec_resolve_account_def)
  next
    case None
    then have l1: "match_exact sd l = Inr l"
      using acc by (simp add: match_exact_def dict_item_def)
    show ?thesis
    proof (cases "List.find (\<lambda>c. c \<noteq> [] \<and> map_of ?d c \<noteq> None) (truncations code)")
      case found: (Some c)
      then obtain i where i: "map_of ?d c = Some i" using find_truncation by blast
      then have "i \<noteq> 0" by (rule nz)
      have tz: "truncations code \<noteq> []" using found by auto
      have "code \<noteq> []" using tz truncations_no_zero by blast
      then have "match_truncated sd l = Inr (l(''account_id'' \<mapsto> VInt i))"
        using acc fresh found i
        by (simp add: match_truncated_def dict_item_def strip_zeros_find)
      then show ?thesis using l1 None found i \<open>i \<noteq> 0\<close> bucket
        by (simp add: resolve_account_def match_prefix_def dict_get_def spec_resolve_account_def)
    next
      case nf: None
      have l2: "match_truncated sd l = Inr l"
        using acc fresh nf
        by (simp add: match_truncated_def dict_item_def strip_zeros_find)
      show ?thesis
      proof (cases "List.find (\<lambda>(c, i). prefix code c) ?d")
        case (Some ci)
        obtain c i where ci: "ci = (c, i)" by (cases ci)
        have "(c, i) \<in> set ?d" using Some ci by (auto simp: find_Some_iff in_set_conv_nth)
        then have "i \<noteq> 0" using ids by force
        then show ?thesis using l1 l2 None nf Some ci acc fresh bucket
          by (simp add: resolve_account_def match_prefix_def dict_get_def dict_item_def
              spec_resolve_account_def scan_prefix_find)
      next
        case np: None
        show ?thesis using l1 l2 None nf np acc fresh line bucket
          by (simp add: resolve_account_def match_prefix_def dict_get_def dict_item_def
              spec_resolve_account_def scan_prefix_find)
      qed
    qed
  qed
qed


lemma truncations_611000: "truncations ''611000'' = [''61100'', ''6110'', ''611'']"
  by (simp add: truncations_def trailing_zeros_def upt_conv_Cons)

theorem account_resolution_order_witness:
  "resolve_account (test_dir\<lparr>sd_account := [(''6110'', 61)]\<rparr>)
     (test_line 2 ''VT'' ''611000'' 100 0, no_errors, [])
   = Inr ((test_line 2 ''VT'' ''611000'' 100 0)(''account_id'' \<mapsto> VInt 61), no_errors, [])
   \<and>
   resolve_account test_dir (test_line 3 ''VT'' ''6110'' 100 0, no_errors, [])
   = Inr ((test_line 3 ''VT'' ''6110'' 100 0)(''account_id'' \<mapsto> VInt 61), no_errors, [])
   \<and>
   resolve_account test_dir (test_line 4 ''VT'' ''4110'' 100 0, no_errors, [])
   = Inr ((test_line 4 ''VT'' ''4110'' 100 0)(''account_id'' \<mapsto> VInt 41), no_errors,
          [ApproximateMatch (VStr ''4110'') ''411000XX''])
   \<and>
   resolve_account test_dir (test_line 5 ''VT'' ''7'' 100 0, no_errors, [])
   = Inr (test_line 5 ''VT'' ''7'' 100 0, no_errors\<lparr>err_account := [(VStr ''7'', [VInt 5])]\<rparr>, [])"
proof -
  have a: "resolve_account (test_dir\<lparr>sd_account := [(''6110'', 61)]\<rparr>)
     (test_line 2 ''VT'' ''611000'' 100 0, no_errors, [])
   = Inr ((test_line 2 ''VT'' ''611000'' 100 0)(''account_id'' \<mapsto> VInt 61), no_errors, [])"
    using account_resolution_order[of "test_line 2 ''VT'' ''611000'' 100 0" "''611000''" "VInt 2"
        "test_dir\<lparr>sd_account := [(''6110'', 61)]\<rparr>" no_errors "[]"]
    by (simp add: test_line_def dict_get_def spec_resolve_account_def truncations_611000)
  have b: "resolve_account test_dir (test_line 3 ''VT'' ''6110'' 100 0, no_errors, [])
   = Inr ((test_line 3 ''VT'' ''6110'' 100 0)(''account_id'' \<mapsto> VInt 61), no_errors, [])"
    using account_resolution_order[of "test_line 3 ''VT'' ''6110'' 100 0" "''6110''" "VInt 3"
        test_dir no_errors "[]"]
    by (simp add: test_line_def dict_get_def spec_resolve_account_def test_dir_def)
  have t1: "truncations ''4110'' = [''411'']"
    by (simp add: truncations_def trailing_zeros_def upt_conv_Cons)
  have c: "resolve_account test_dir (test_line 4 ''VT'' ''4110'' 100 0, no_errors, [])
   = Inr ((test_line 4 ''VT'' ''4110'' 100 0)(''account_id'' \<mapsto> VInt 41), no_errors,
          [ApproximateMatch (VStr ''4110'') ''411000XX''])"
    using account_resolution_order[of "test_line 4 ''VT'' ''4110'' 100 0" "''4110''" "VInt 4"
        test_dir no_errors "[]"]
    by (simp add: test_line_def dict_get_def spec_resolve_account_def test_dir_def t1)
  have t2: "truncations ''7'' = []"
    by (simp add: truncations_def trailing_zeros_def)
  have d: "resolve_account test_dir (test_line 5 ''VT'' ''7'' 100 0, no_errors, [])
   = Inr (test_line 5 ''VT'' ''7'' 100 0, no_errors\<lparr>err_account := [(VStr ''7'', [VInt 5])]\<rparr>, [])"
    using account_resolution_order[of "test_line 5 ''VT'' ''7'' 100 0" "''7''" "VInt 5"
        test_dir no_errors "[]"]
    by (simp add: test_line_def dict_get_def spec_resolve_account_def test_dir_def t2
        add_code_error_def no_errors_def)
  from a b c d show ?thesis by simp
qed

section \<open>Properties of the analytic distribution\<close>

lemma py_split_nonempty: "py_split c s \<noteq> []"
  by (induction s) (auto split: list.splits)

lemma py_split_no_sep: "c \<notin> set s \<Longrightarrow> py_split c s = [s]"
  by (induction s) auto

lemma py_split_append:
  "c \<notin> set p \<Longrightarrow> py_split c (a @ c # p) = py_split c a @ [p]"
proof (induction a)
  case Nil
  then show ?case by (simp add: py_split_no_sep)
next
  case (Cons x a)
  then show ?case
    using py_split_nonempty[of c a] by (cases "py_split c a") auto
qed

lemma py_join_split: "py_join c (py_split c s) = s"
proof (induction s)
  case Nil
  then show ?case by simp
next
  case (Cons x s)
  show ?case
  proof (cases "x = c")
    case True
    then show ?thesis using Cons py_split_nonempty[of c s]
      by (cases "py_split c s") auto
  next
    case False
    then show ?thesis using Cons py_split_nonempty[of c s]
      by (cases "py_split c s"; cases "tl (py_split c s)") auto
  qed
qed

lemma split_entry_plain:
  assumes "CHR '':'' \<notin> set e"
  shows "split_entry h n e other = (py_strip e, Finite 100, other)"
  using assms by (simp add: split_entry_def py_split_no_sep)

lemma split_entry_colon:
  assumes "CHR '':'' \<notin> set p"
  shows "split_entry h n (a @ CHR '':'' # p) other =
           (py_strip a, fst (parse_pct h n p other), snd (parse_pct h n p other))"
proof -
  have "length (py_split CHR '':'' a @ [p]) \<noteq> 1"
    using py_split_nonempty[of "CHR '':''" a] by (cases "py_split CHR '':'' a") auto
  then show ?thesis using assms
    by (simp add: split_entry_def py_split_append py_join_split Let_def split_beta)
qed

lemma parse_pct_cases:
  "parse_pct h n p other =
     (case py_float h (comma_to_dot p) of
        None \<Rightarrow> (Finite 1, other @ [WrongPctNotNumber n p])
      | Some r \<Rightarrow>
          (r, if flt r (Finite 0) \<or> flt (Finite 100) r then other @ [WrongPctRange n p]
              else other))"
  by (simp add: parse_pct_def split: option.splits)

lemma analytic_entry_keys:
  "fst ` set (fst (analytic_entry sd h line seg (ad, errs)))
     \<subseteq> fst ` set ad \<union> snd ` set (sd_analytic sd)"
  by (auto simp: analytic_entry_def Let_def split_beta dom_update
      split: option.splits dest!: map_of_SomeD) force+

lemma analytic_entries_keys:
  "fst ` set (fst (analytic_entries sd h line segs acc))
     \<subseteq> fst ` set (fst acc) \<union> snd ` set (sd_analytic sd)"
  unfolding analytic_entries_def
proof (induction segs arbitrary: acc)
  case Nil
  then show ?case by simp
next
  case (Cons seg segs)
  obtain ad errs where acc: "acc = (ad, errs)" by (cases acc)
  show ?case
    using Cons.IH[of "analytic_entry sd h line seg acc"] analytic_entry_keys[of sd h line seg ad errs]
    by (auto simp: acc)
qed


lemma analytic_entry_empty:
  "py_strip seg = [] \<Longrightarrow> analytic_entry sd h line seg (ad, errs) = (ad, errs)"
  by (simp add: analytic_entry_def)

lemma analytic_entry_plain:
  assumes "py_strip seg \<noteq> []" and "CHR '':'' \<notin> set (py_strip seg)"
  shows "analytic_entry sd h line seg (ad, errs) =
          (case map_of (sd_analytic sd) (py_strip seg) of
             Some i \<Rightarrow> (AList.update i (Finite 100) ad, errs)
           | None \<Rightarrow>
               (ad, errs\<lparr>err_analytic :=
                     add_code_error (VStr (py_strip seg)) line (err_analytic errs)\<rparr>))"
  using assms
  by (simp add: analytic_entry_def split_entry_plain py_strip_idem split: option.splits)

lemma analytic_entry_colon:
  assumes "py_strip seg = a @ CHR '':'' # p" and "CHR '':'' \<notin> set p"
  shows "analytic_entry sd h line seg (ad, errs) =
          (let (pct, other) =
                 (case py_float h (comma_to_dot p) of
                    None \<Rightarrow> (Finite 1, err_other errs @ [WrongPctNotNumber (int_val line) p])
                  | Some r \<Rightarrow>
                      (r, if flt r (Finite 0) \<or> flt (Finite 100) r
                          then err_other errs @ [WrongPctRange (int_val line) p]
                          else err_other errs));
               errs1 = errs\<lparr>err_other := other\<rparr>
           in case map_of (sd_analytic sd) (py_strip a) of
                Some i \<Rightarrow> (AList.update i pct ad, errs1)
              | None \<Rightarrow>
                  (ad, errs1\<lparr>err_analytic :=
                         add_code_error (VStr (py_strip a)) line (err_analytic errs1)\<rparr>))"
  using assms
  by (simp add: analytic_entry_def split_entry_colon parse_pct_cases Let_def split_beta
      split: option.splits)

text \<open>
  Claim C8, as the code has it.  The analytic text is split on \<^verbatim>\<open>|\<close> and each
  segment is stripped; an empty segment is passed over; a segment without a colon has
  the percentage 100; in a segment with a colon the text after the last colon is the
  percentage: when \<^verbatim>\<open>float\<close> refuses it an error is recorded and the percentage is 1;
  when \<^verbatim>\<open>float\<close> returns a value that compares below 0 or above 100 an error is
  recorded and the percentage stays that value; any other value that \<^verbatim>\<open>float\<close>
  returns is stored without an error, and this includes the not-a-number value, which
  compares neither below 0 nor above 100; a code that is not in the analytic directory
  has the line appended to its errors and adds nothing to the distribution, so that
  every key of the distribution is an id of the directory.
\<close>

theorem analytic_distribution_parsing:
  "(py_strip seg = [] \<longrightarrow> analytic_entry sd h line seg (ad, errs) = (ad, errs))
   \<and> (py_strip seg \<noteq> [] \<and> CHR '':'' \<notin> set (py_strip seg) \<longrightarrow>
        analytic_entry sd h line seg (ad, errs) =
          (case map_of (sd_analytic sd) (py_strip seg) of
             Some i \<Rightarrow> (AList.update i (Finite 100) ad, errs)
           | None \<Rightarrow>
               (ad, errs\<lparr>err_analytic :=
                     add_code_error (VStr (py_strip seg)) line (err_analytic errs)\<rparr>)))
   \<and> (py_strip seg = a @ CHR '':'' # p \<and> CHR '':'' \<notin> set p \<longrightarrow>
        analytic_entry sd h line seg (ad, errs) =
          (let (pct, other) =
                 (case py_float h (comma_to_dot p) of
                    None \<Rightarrow> (Finite 1, err_other errs @ [WrongPctNotNumber (int_val line) p])
                  | Some r \<Rightarrow>
                      (r, if flt r (Finite 0) \<or> flt (Finite 100) r
                          then err_other errs @ [WrongPctRange (int_val line) p]
                          else err_other errs));
               errs1 = errs\<lparr>err_other := other\<rparr>
           in case map_of (sd_analytic sd) (py_strip a) of
                Some i \<Rightarrow> (AList.update i pct ad, errs1)
              | None \<Rightarrow>
                  (ad, errs1\<lparr>err_analytic :=
                         add_code_error (VStr (py_strip a)) line (err_analytic errs1)\<rparr>)))
   \<and> (l ''analytic'' = Some (VStr s) \<and> s \<noteq> [] \<longrightarrow>
        (\<exists>ad' errs'.
           resolve_analytic sd h (l, errs, lg) =
             Inr (l(''analytic_distribution'' \<mapsto> VDist ad'), errs', lg) \<and>
           (ad', errs') =
             fold (analytic_entry sd h (dict_get l ''line'')) (py_split CHR ''|'' s) ([], errs) \<and>
           fst ` set ad' \<subseteq> snd ` set (sd_analytic sd)))"
proof -
  have "\<exists>ad' errs'.
           resolve_analytic sd h (l, errs, lg) =
             Inr (l(''analytic_distribution'' \<mapsto> VDist ad'), errs', lg) \<and>
           (ad', errs') =
             fold (analytic_entry sd h (dict_get l ''line'')) (py_split CHR ''|'' s) ([], errs) \<and>
           fst ` set ad' \<subseteq> snd ` set (sd_analytic sd)"
    if "l ''analytic'' = Some (VStr s)" and "s \<noteq> []"
  proof -
    obtain ad' errs' where r: "analytic_entries sd h (dict_get l ''line'')
        (py_split CHR ''|'' s) ([], errs) = (ad', errs')"
      by (cases "analytic_entries sd h (dict_get l ''line'') (py_split CHR ''|'' s) ([], errs)")
    have "fst ` set ad' \<subseteq> snd ` set (sd_analytic sd)"
      using analytic_entries_keys[of sd h "dict_get l ''line''" "py_split CHR ''|'' s" "([], errs)"] r
      by simp
    moreover have "resolve_analytic sd h (l, errs, lg) =
        Inr (l(''analytic_distribution'' \<mapsto> VDist ad'), errs', lg)"
      using that r by (simp add: resolve_analytic_def dict_get_def)
    ultimately show ?thesis using r by (auto simp: analytic_entries_def)
  qed
  note whole = this
  show ?thesis
  proof (intro conjI impI)
    show "analytic_entry sd h line seg (ad, errs) = (ad, errs)" if "py_strip seg = []"
      using that by (rule analytic_entry_empty)
  next
    assume "py_strip seg \<noteq> [] \<and> CHR '':'' \<notin> set (py_strip seg)"
    then show "analytic_entry sd h line seg (ad, errs) =
          (case map_of (sd_analytic sd) (py_strip seg) of
             Some i \<Rightarrow> (AList.update i (Finite 100) ad, errs)
           | None \<Rightarrow>
               (ad, errs\<lparr>err_analytic :=
                     add_code_error (VStr (py_strip seg)) line (err_analytic errs)\<rparr>))"
      using analytic_entry_plain[of seg sd h line ad errs] by (elim conjE)
  next
    assume "py_strip seg = a @ CHR '':'' # p \<and> CHR '':'' \<notin> set p"
    then have 1: "py_strip seg = a @ CHR '':'' # p" and 2: "CHR '':'' \<notin> set p" by simp_all
    show "analytic_entry sd h line seg (ad, errs) =
          (let (pct, other) =
                 (case py_float h (comma_to_dot p) of
                    None \<Rightarrow> (Finite 1, err_other errs @ [WrongPctNotNumber (int_val line) p])
                  | Some r \<Rightarrow>
                      (r, if flt r (Finite 0) \<or> flt (Finite 100) r
                          then err_other errs @ [WrongPctRange (int_val line) p]
                          else err_other errs));
               errs1 = errs\<lparr>err_other := other\<rparr>
           in case map_of (sd_analytic sd) (py_strip a) of
                Some i \<Rightarrow> (AList.update i pct ad, errs1)
              | None \<Rightarrow>
                  (ad, errs1\<lparr>err_analytic :=
                         add_code_error (VStr (py_strip a)) line (err_analytic errs1)\<rparr>))"
      by (rule analytic_entry_colon[OF 1 2])
  next
    assume "l ''analytic'' = Some (VStr s) \<and> s \<noteq> []"
    then show "\<exists>ad' errs'.
           resolve_analytic sd h (l, errs, lg) =
             Inr (l(''analytic_distribution'' \<mapsto> VDist ad'), errs', lg) \<and>
           (ad', errs') =
             fold (analytic_entry sd h (dict_get l ''line'')) (py_split CHR ''|'' s) ([], errs) \<and>
           fst ` set ad' \<subseteq> snd ` set (sd_analytic sd)"
      using whole by (elim conjE)
  qed
qed

theorem analytic_distribution_parsing_witness:
  "analytic_entry test_dir test_host (VInt 2) '' '' ([], no_errors) = ([], no_errors)
   \<and> analytic_entry test_dir test_host (VInt 2) '' ADM '' ([], no_errors) = ([(5, Finite 100)], no_errors)
   \<and> analytic_entry test_dir test_host (VInt 2) ''X:abc'' ([(5, Finite 100)], no_errors) =
         ([(5, Finite 100)],
          no_errors\<lparr>err_other := [WrongPctNotNumber 2 ''abc''],
                    err_analytic := [(VStr ''X'', [VInt 2])]\<rparr>)
   \<and> analytic_entry test_dir test_host (VInt 2) ''ADM:nan'' ([], no_errors) = ([(5, NaN)], no_errors)
   \<and> resolve_analytic test_dir test_host
         ((test_line 2 ''VT'' ''6110'' 100 0)(''analytic'' \<mapsto> VStr '' ADM |X:abc''), no_errors, [])
       = Inr ((test_line 2 ''VT'' ''6110'' 100 0)
                (''analytic'' \<mapsto> VStr '' ADM |X:abc'',
                 ''analytic_distribution'' \<mapsto> VDist [(5, Finite 100)]),
              no_errors\<lparr>err_other := [WrongPctNotNumber 2 ''abc''],
                        err_analytic := [(VStr ''X'', [VInt 2])]\<rparr>,
              [])"
proof -
  let ?l = "(test_line 2 ''VT'' ''6110'' 100 0)(''analytic'' \<mapsto> VStr '' ADM |X:abc'')"
  have s1: "py_strip '' '' = []" and s2: "py_strip '' ADM '' = ''ADM''"
    and s3: "py_strip ''X:abc'' = ''X'' @ CHR '':'' # ''abc''" and s4: "py_strip ''X'' = ''X''"
    by (simp_all add: py_strip_def py_isspace_def)
  have f: "test_float ''abc'' = None"
    by (simp add: test_float_def is_digit_def)
  have pf: "py_float test_host = test_float"
    by (simp add: test_host_def)
  have a: "analytic_entry test_dir test_host (VInt 2) '' '' ([], no_errors) = ([], no_errors)"
    using analytic_distribution_parsing[where seg = "'' ''" and sd = test_dir and h = test_host
        and line = "VInt 2" and ad = "[]" and errs = no_errors, THEN conjunct1] s1
    by simp
  have b: "analytic_entry test_dir test_host (VInt 2) '' ADM '' ([], no_errors) =
      ([(5, Finite 100)], no_errors)"
    using analytic_distribution_parsing[where seg = "'' ADM ''" and sd = test_dir and h = test_host
        and line = "VInt 2" and ad = "[]" and errs = no_errors,
        THEN conjunct2, THEN conjunct1] s2
    by (simp add: test_dir_def)
  have c: "analytic_entry test_dir test_host (VInt 2) ''X:abc'' ([(5, Finite 100)], no_errors) =
         ([(5, Finite 100)],
          no_errors\<lparr>err_other := [WrongPctNotNumber 2 ''abc''],
                    err_analytic := [(VStr ''X'', [VInt 2])]\<rparr>)"
    using analytic_distribution_parsing[where seg = "''X:abc''" and sd = test_dir and h = test_host
        and line = "VInt 2" and ad = "[(5, Finite 100)]" and errs = no_errors and a = "''X''"
        and p = "''abc''", THEN conjunct2, THEN conjunct2, THEN conjunct1] s3 s4 f pf
    by (simp add: test_dir_def comma_to_dot_def add_code_error_def no_errors_def)
  have s5: "py_strip ''ADM:nan'' = ''ADM'' @ CHR '':'' # ''nan''" and s6: "py_strip ''ADM'' = ''ADM''"
    by (simp_all add: py_strip_def py_isspace_def)
  have e: "analytic_entry test_dir test_host (VInt 2) ''ADM:nan'' ([], no_errors) =
      ([(5, NaN)], no_errors)"
    using analytic_distribution_parsing[where seg = "''ADM:nan''" and sd = test_dir and h = test_host
        and line = "VInt 2" and ad = "[]" and errs = no_errors and a = "''ADM''"
        and p = "''nan''", THEN conjunct2, THEN conjunct2, THEN conjunct1] s5 s6 test_float_nan pf
    by (simp add: test_dir_def comma_to_dot_def no_errors_def)
  have sp: "py_split CHR ''|'' '' ADM |X:abc'' = ['' ADM '', ''X:abc'']"
    by simp
  have ln: "dict_get ?l ''line'' = VInt 2"
    by (simp add: dict_get_def test_line_def)
  have hyp: "?l ''analytic'' = Some (VStr '' ADM |X:abc'') \<and> '' ADM |X:abc'' \<noteq> []"
    by simp
  obtain ad' errs' where
    r: "resolve_analytic test_dir test_host (?l, no_errors, []) =
          Inr (?l(''analytic_distribution'' \<mapsto> VDist ad'), errs', [])"
    and fd: "(ad', errs') =
          fold (analytic_entry test_dir test_host (dict_get ?l ''line''))
            (py_split CHR ''|'' '' ADM |X:abc'') ([], no_errors)"
    using analytic_distribution_parsing[where l = ?l and s = "'' ADM |X:abc''" and sd = test_dir
        and h = test_host and errs = no_errors and lg = "[]",
        THEN conjunct2, THEN conjunct2, THEN conjunct2, THEN mp, OF hyp]
    by blast
  from fd have "(ad', errs') = ([(5, Finite 100)],
          no_errors\<lparr>err_other := [WrongPctNotNumber 2 ''abc''],
                    err_analytic := [(VStr ''X'', [VInt 2])]\<rparr>)"
    unfolding sp ln by (simp add: b c)
  with r have d: "resolve_analytic test_dir test_host (?l, no_errors, [])
       = Inr (?l(''analytic_distribution'' \<mapsto> VDist [(5, Finite 100)]),
              no_errors\<lparr>err_other := [WrongPctNotNumber 2 ''abc''],
                        err_analytic := [(VStr ''X'', [VInt 2])]\<rparr>,
              [])"
    by simp
  from a b c d e show ?thesis by simp
qed

text \<open>
  The claim as the specification states it (a percentage outside 0..100 becomes 1) fails:
  the segment \<^verbatim>\<open>ADM:150\<close> records the error and stores 150, not 1.
\<close>

theorem analytic_pct_out_of_range_kept:
  "analytic_entry test_dir test_host (VInt 2) ''ADM:150'' ([], no_errors) =
     ([(5, Finite 150)], no_errors\<lparr>err_other := [WrongPctRange 2 ''150'']\<rparr>)
   \<and> fst (analytic_entry test_dir test_host (VInt 2) ''ADM:150'' ([], no_errors)) \<noteq> [(5, Finite 1)]"
proof -
  have s: "py_strip ''ADM:150'' = ''ADM'' @ CHR '':'' # ''150''" and s': "py_strip ''ADM'' = ''ADM''"
    by (simp_all add: py_strip_def py_isspace_def)
  have f: "test_float ''150'' = Some (Finite 150)"
    by (simp add: test_float_def is_digit_def digit_val_def)
  show ?thesis
    by (simp add: analytic_entry_colon[OF s] s' comma_to_dot_def test_host_def f test_dir_def
        no_errors_def)
qed

section \<open>Properties of the validation\<close>

lemma bind_err_Inr_iff: "bind_err m f = Inr y \<longleftrightarrow> (\<exists>x. m = Inr x \<and> f x = Inr y)"
  by (cases m) auto

lemma add_code_error_nonempty [simp]: "add_code_error c n b \<noteq> []"
  by (auto simp: add_code_error_def split: option.splits)

lemma has_errors_simps [simp]:
  "has_errors (errs\<lparr>err_account := add_code_error c n b\<rparr>)"
  "has_errors (errs\<lparr>err_partner := add_code_error c n b\<rparr>)"
  "has_errors (errs\<lparr>err_journal := add_code_error c n b\<rparr>)"
  "has_errors (errs\<lparr>err_analytic := add_code_error c n b\<rparr>)"
  "has_errors (add_other e errs)"
  by (simp_all add: has_errors_def add_other_def)

lemma match_exact_frame:
  "match_exact sd l = Inr l' \<Longrightarrow> k \<noteq> ''account_id'' \<Longrightarrow> l' k = l k"
  by (auto simp: match_exact_def bind_err_Inr_iff split: option.splits)

lemma match_truncated_frame:
  "match_truncated sd l = Inr l' \<Longrightarrow> k \<noteq> ''account_id'' \<Longrightarrow> l' k = l k"
  by (auto simp: match_truncated_def bind_err_Inr_iff split: option.splits if_splits pval.splits)

lemma match_prefix_frame:
  "match_prefix sd (l, lg) = Inr (l', lg') \<Longrightarrow> k \<noteq> ''account_id'' \<Longrightarrow> l' k = l k"
  by (auto simp: match_prefix_def bind_err_Inr_iff split: option.splits if_splits)

lemma truthy_present: "truthy (dict_get l k) \<Longrightarrow> l k \<noteq> None"
  by (cases "l k") (auto simp: dict_get_def)

lemma resolve_account_valid:
  assumes "resolve_account sd (l, errs, lg) = Inr (l', errs', lg')" and "\<not> has_errors errs'"
  shows "\<not> has_errors errs \<and> l' ''account_id'' \<noteq> None \<and> (\<forall>k. k \<noteq> ''account_id'' \<longrightarrow> l' k = l k)"
proof -
  from assms(1) obtain l1 l2 l3 lg3 where
    1: "match_exact sd l = Inr l1" and 2: "match_truncated sd l1 = Inr l2"
    and 3: "match_prefix sd (l2, lg) = Inr (l3, lg3)"
    and 4: "(if truthy (dict_get l3 ''account_id'') then Inr (l3, errs, lg3)
       else
         bind_err (dict_item l3 ''account'') (\<lambda>a.
         bind_err (dict_item l3 ''line'') (\<lambda>n.
           Inr (l3, errs\<lparr>err_account := add_code_error a n (err_account errs)\<rparr>, lg3))))
        = Inr (l', errs', lg')"
    by (auto simp: resolve_account_def bind_err_Inr_iff)
  have fr: "k \<noteq> ''account_id'' \<Longrightarrow> l3 k = l k" for k
    using match_exact_frame[OF 1] match_truncated_frame[OF 2] match_prefix_frame[OF 3] by simp
  show ?thesis
  proof (cases "truthy (dict_get l3 ''account_id'')")
    case True
    with 4 have "l' = l3" "errs' = errs" by simp_all
    with True fr assms(2) show ?thesis by (auto dest: truthy_present)
  next
    case False
    with 4 assms(2) show ?thesis by (auto simp: bind_err_Inr_iff)
  qed
qed

lemma resolve_partner_valid:
  assumes "resolve_partner sd (l, errs, lg) = Inr (l', errs', lg')" and "\<not> has_errors errs'"
  shows "\<not> has_errors errs \<and> (\<forall>k. k \<noteq> ''partner_id'' \<longrightarrow> l' k = l k)"
  using assms
  by (auto simp: resolve_partner_def bind_err_Inr_iff split: if_splits option.splits)

lemma analytic_entry_errors:
  "has_errors errs \<Longrightarrow> has_errors (snd (analytic_entry sd h line seg (ad, errs)))"
  by (auto simp: analytic_entry_def split_entry_def parse_pct_def Let_def split_beta has_errors_def
      split: option.splits)

lemma analytic_entries_errors:
  "has_errors (snd acc) \<Longrightarrow> has_errors (snd (analytic_entries sd h line segs acc))"
  unfolding analytic_entries_def
proof (induction segs arbitrary: acc)
  case Nil
  then show ?case by simp
next
  case (Cons seg segs)
  then show ?case using analytic_entry_errors[of "snd acc" sd h line seg "fst acc"] by simp
qed

lemma resolve_analytic_valid:
  assumes "resolve_analytic sd h (l, errs, lg) = Inr (l', errs', lg')" and "\<not> has_errors errs'"
  shows "\<not> has_errors errs \<and> (\<forall>k. k \<noteq> ''analytic_distribution'' \<longrightarrow> l' k = l k)"
  using assms analytic_entries_errors[of "([], errs)" sd h "dict_get l ''line''"]
  by (auto simp: resolve_analytic_def Let_def split_beta split: if_splits pval.splits)

lemma resolve_journal_valid:
  assumes "resolve_journal sd (l, errs, lg) = Inr (l', errs', lg')" and "\<not> has_errors errs'"
  shows "\<not> has_errors errs \<and> l' ''journal_id'' \<noteq> None \<and> (\<forall>k. k \<noteq> ''journal_id'' \<longrightarrow> l' k = l k)"
  using assms
  by (auto simp: resolve_journal_def bind_err_Inr_iff split: if_splits option.splits)

lemma check_date_valid:
  assumes "check_date h (l, errs, lg) = Inr (l', errs', lg')" and "\<not> has_errors errs'"
  shows "\<not> has_errors errs \<and> l' ''date'' \<noteq> None \<and> (\<forall>k. k \<noteq> ''date'' \<longrightarrow> l' k = l k)"
proof (cases "truthy (dict_get l ''date'')")
  case False
  with assms show ?thesis by (auto simp: check_date_def bind_err_Inr_iff)
next
  case True
  then have "l ''date'' \<noteq> None" by (rule truthy_present)
  with True assms show ?thesis
    by (cases "dict_get l ''date''")
      (auto simp: check_date_def bind_err_Inr_iff split: option.splits)
qed

lemma check_amount_valid:
  assumes "check_amount k mk (l, errs, lg) = Inr (l', errs', lg')" and "\<not> has_errors errs'"
  shows "\<not> has_errors errs \<and> is_number (dict_get l k) \<and> l' = l"
  using assms
  by (auto simp: check_amount_def bind_err_Inr_iff split: if_splits)

lemma resolve_line_valid:
  assumes "resolve_line sd h (l, errs, lg) = Inr (l', errs', lg')" and "\<not> has_errors errs'"
  shows "\<not> has_errors errs \<and> validated l'"
proof -
  from assms(1) obtain s1 s2 s3 s4 s5 s6 where
    ln: "truthy (dict_get l ''line'')"
    and 1: "resolve_account sd (l, errs, lg) = Inr s1"
    and 2: "resolve_partner sd s1 = Inr s2"
    and 3: "resolve_analytic sd h s2 = Inr s3"
    and 4: "resolve_journal sd s3 = Inr s4"
    and 5: "check_date h s4 = Inr s5"
    and 6: "check_amount ''credit'' BadCredit s5 = Inr s6"
    and 7: "check_amount ''debit'' BadDebit s6 = Inr (l', errs', lg')"
    by (auto simp: resolve_line_def bind_err_Inr_iff split: if_splits)
  obtain l1 e1 g1 where s1: "s1 = (l1, e1, g1)" by (cases s1)
  obtain l2 e2 g2 where s2: "s2 = (l2, e2, g2)" by (cases s2)
  obtain l3 e3 g3 where s3: "s3 = (l3, e3, g3)" by (cases s3)
  obtain l4 e4 g4 where s4: "s4 = (l4, e4, g4)" by (cases s4)
  obtain l5 e5 g5 where s5: "s5 = (l5, e5, g5)" by (cases s5)
  obtain l6 e6 g6 where s6: "s6 = (l6, e6, g6)" by (cases s6)
  note g7 = check_amount_valid[OF 7[unfolded s6] assms(2)]
  note g6 = check_amount_valid[OF 6[unfolded s5 s6] conjunct1[OF g7]]
  note g5 = check_date_valid[OF 5[unfolded s4 s5] conjunct1[OF g6]]
  note g4 = resolve_journal_valid[OF 4[unfolded s3 s4] conjunct1[OF g5]]
  note g3 = resolve_analytic_valid[OF 3[unfolded s2 s3] conjunct1[OF g4]]
  note g2 = resolve_partner_valid[OF 2[unfolded s1 s2] conjunct1[OF g3]]
  note g1 = resolve_account_valid[OF 1[unfolded s1] conjunct1[OF g2]]
  have eq: "l' = l5" "l6 = l5" using g7 g6 by simp_all
  have "l5 ''journal_id'' \<noteq> None" using g4 g5 by simp
  moreover have "l5 ''account_id'' \<noteq> None" using g1 g2 g3 g4 g5 by simp
  moreover have "l5 ''line'' \<noteq> None" using truthy_present[OF ln] g1 g2 g3 g4 g5 by simp
  moreover have "l5 ''date'' \<noteq> None" using g5 by simp
  ultimately show ?thesis using g1 g6 g7 eq by (simp add: validated_def)
qed

lemma resolve_pivot_valid:
  assumes "resolve_pivot sd h pivot (errs, lg) = Inr (pivot', errs', lg')" and "\<not> has_errors errs'"
  shows "\<not> has_errors errs \<and> list_all validated pivot' \<and> length pivot' = length pivot"
  using assms
proof (induction pivot arbitrary: errs lg pivot')
  case Nil
  then show ?case by simp
next
  case (Cons l ls)
  from Cons.prems(1) obtain l1 e1 g1 ls1 where
    a: "resolve_line sd h (l, errs, lg) = Inr (l1, e1, g1)"
    and b: "resolve_pivot sd h ls (e1, g1) = Inr (ls1, errs', lg')" and c: "pivot' = l1 # ls1"
    by (auto split: sum.splits)
  from Cons.IH[OF b Cons.prems(2)] resolve_line_valid[OF a] c show ?case by simp
qed

lemma validate_pivot_validated:
  assumes "validate_pivot sd h pivot = Inr (pivot', lg)"
  shows "list_all validated pivot' \<and> length pivot' = length pivot"
proof -
  from assms obtain errs where
    "resolve_pivot sd h pivot (no_errors, []) = Inr (pivot', errs, lg)" and "\<not> has_errors errs"
    by (auto simp: validate_pivot_def bind_err_Inr_iff split: if_splits)
  from resolve_pivot_valid[OF this] show ?thesis by simp
qed

lemma errors_raise_aggregate:
  assumes "resolve_pivot sd h pivot (no_errors, []) = Inr (pivot', errs, lg)" and "has_errors errs"
  shows "create_moves_from_pivot sd cfg h pivot = Inl (UserError (ResolutionErrors errs))"
  using assms by (simp add: create_moves_from_pivot_def validate_pivot_def)

section \<open>Properties of the move splitter\<close>

lemma fadd_zero [simp]: "fadd (Finite 0) x = x"
  by (cases x) simp_all

lemma fsub_Finite [simp]: "fsub (Finite a) (Finite b) = Finite (a - b)"
  by (simp add: fsub_def)

lemma feq_Finite [simp]: "feq (Finite a) (Finite b) \<longleftrightarrow> a = b"
  by (simp add: feq_def)

lemma move_balance_snoc:
  "move_balance (m\<lparr>mv_line_ids := mv_line_ids m @ [ml]\<rparr>) =
     fadd (move_balance m) (fsub (num_val (ml_credit ml)) (num_val (ml_debit ml)))"
  by (simp add: move_balance_def)

lemma move_balance_single:
  "move_balance (m\<lparr>mv_line_ids := [ml]\<rparr>) =
     fsub (num_val (ml_credit ml)) (num_val (ml_debit ml))"
  by (simp add: move_balance_def)

lemma prepare_move_line_amounts:
  assumes "prepare_move_line l s = Inr ml"
  shows "dict_item l ''credit'' = Inr (ml_credit ml) \<and> dict_item l ''debit'' = Inr (ml_debit ml)"
  using assms by (auto simp: prepare_move_line_def bind_err_Inr_iff)

lemma add_balance_Inr:
  assumes "add_balance st l = Inr st'"
    and "dict_item l ''credit'' = Inr c" and "dict_item l ''debit'' = Inr d"
  shows "st' = st\<lparr>cur_balance := fadd (cur_balance st) (fsub (num_val c) (num_val d))\<rparr>"
  using assms by (auto simp: add_balance_def bind_err_Inr_iff as_number_def split: if_splits)

lemma append_line_Inr:
  assumes "append_line h st l = Inr st1"
  shows "\<exists>m ml. cur_move st = Some m \<and> prepare_move_line l (next_seq h) = Inr ml \<and>
           st1 = st\<lparr>cur_move := Some (m\<lparr>mv_line_ids := mv_line_ids m @ [ml]\<rparr>)\<rparr>"
  using assms by (auto simp: append_line_def bind_err_Inr_iff split: option.splits)

lemma new_move_Inr:
  assumes "new_move cfg h st l = Inr st1"
  shows "\<exists>m ml. prepare_move_line l (next_seq h) = Inr ml \<and>
           cur_move st1 = Some (m\<lparr>mv_line_ids := [ml]\<rparr>) \<and> cur_balance st1 = Finite 0 \<and>
           (case cur_move st of
              None \<Rightarrow> st_moves st1 = st_moves st
            | Some m0 \<Rightarrow> 2 \<le> length (mv_line_ids m0) \<and> st_moves st1 = st_moves st @ [m0])"
  using assms
  by (auto simp: new_move_def bind_err_Inr_iff split: option.splits if_splits)

lemma split_line_inv:
  assumes inv: "split_inv st" and step: "split_line cfg h st l = Inr st'"
  shows "split_inv st'"
proof -
  from step obtain null where null: "is_null_line cfg h l = Inr null"
    by (auto simp: split_line_def bind_err_Inr_iff)
  show ?thesis
  proof (cases null)
    case True
    with step null inv show ?thesis
      by (auto simp: split_line_def bind_err_Inr_iff split_inv_def split: option.splits)
  next
    case False
    with step null obtain same errs st1 where
      sm: "same_move cfg h st l = Inr (same, errs)"
      and st1: "(if list_all (\<lambda>b. b) same then append_line h (st\<lparr>st_errors := errs\<rparr>) l
                 else new_move cfg h (st\<lparr>st_errors := errs\<rparr>) l) = Inr st1"
      and bal: "add_balance st1 l = Inr st'"
      by (auto simp: split_line_def bind_err_Inr_iff)
    show ?thesis
    proof (cases "list_all (\<lambda>b. b) same")
      case True
      with st1 obtain m ml where m: "cur_move st = Some m"
        and ml: "prepare_move_line l (next_seq h) = Inr ml"
        and s1: "st1 = st\<lparr>st_errors := errs, cur_move := Some (m\<lparr>mv_line_ids := mv_line_ids m @ [ml]\<rparr>)\<rparr>"
        using append_line_Inr[of h "st\<lparr>st_errors := errs\<rparr>" l st1] by auto
      from add_balance_Inr[OF bal] prepare_move_line_amounts[OF ml]
      have "st' = st1\<lparr>cur_balance :=
          fadd (cur_balance st1) (fsub (num_val (ml_credit ml)) (num_val (ml_debit ml)))\<rparr>"
        by simp
      with s1 m inv show ?thesis
        by (simp add: split_inv_def move_balance_snoc)
    next
      case False
      with st1 obtain m ml where
        ml: "prepare_move_line l (next_seq h) = Inr ml"
        and cm: "cur_move st1 = Some (m\<lparr>mv_line_ids := [ml]\<rparr>)"
        and cb: "cur_balance st1 = Finite 0"
        and ms: "(case cur_move st of
              None \<Rightarrow> st_moves st1 = st_moves st
            | Some m0 \<Rightarrow> 2 \<le> length (mv_line_ids m0) \<and> st_moves st1 = st_moves st @ [m0])"
        using new_move_Inr[of cfg h "st\<lparr>st_errors := errs\<rparr>" l st1]
        by (auto cong: option.case_cong)
      from add_balance_Inr[OF bal] prepare_move_line_amounts[OF ml]
      have "st' = st1\<lparr>cur_balance :=
          fadd (cur_balance st1) (fsub (num_val (ml_credit ml)) (num_val (ml_debit ml)))\<rparr>"
        by simp
      with cm cb ms inv show ?thesis
        by (auto simp: split_inv_def move_balance_single split: option.splits)
    qed
  qed
qed

lemma fold_err_inv:
  assumes "\<And>s x s'. P s \<Longrightarrow> f s x = Inr s' \<Longrightarrow> P s'"
    and "P s" and "fold_err f xs s = Inr s'"
  shows "P s'"
  using assms(2,3)
proof (induction xs arbitrary: s)
  case Nil
  then show ?case by simp
next
  case (Cons x xs)
  then show ?case using assms(1) by (auto split: sum.splits)
qed

lemma split_pivot_inv:
  assumes "split_pivot cfg h pivot = Inr st"
  shows "split_inv st"
proof -
  have "split_inv init_state" by (simp add: split_inv_def init_state_def)
  with assms show ?thesis
    unfolding split_pivot_def
    using fold_err_inv[of split_inv "split_line cfg h" init_state pivot st] split_line_inv
    by blast
qed

text \<open>
  Claim C1, as the code has it.  When \<^verbatim>\<open>create_moves_from_pivot\<close> returns, under either
  split policy, every entry but the last (every entry closed by a split) has two lines
  or more, and the last entry (closed after the last line) has a line and a balance,
  credits minus debits over its lines, that is zero for the company currency.  The
  balance of an entry closed by a split is not checked.
\<close>

theorem split_entries_checked:
  assumes "create_moves_from_pivot sd cfg h pivot = Inr mvs"
  shows "list_all (\<lambda>m. 2 \<le> length (mv_line_ids m)) (butlast mvs) \<and>
         (mvs \<noteq> [] \<longrightarrow> mv_line_ids (last mvs) \<noteq> [] \<and> is_zero h (move_balance (last mvs)))"
proof -
  from assms obtain pivot' lg st where
    "split_pivot cfg h pivot' = Inr st" and cl: "close_moves h st = Inr mvs"
    by (auto simp: create_moves_from_pivot_def extract_moves_def bind_err_Inr_iff)
  then have inv: "split_inv st" using split_pivot_inv by blast
  from cl have z: "is_zero h (cur_balance st)"
    and mvs: "mvs = (case cur_move st of Some m \<Rightarrow> st_moves st @ [m] | None \<Rightarrow> st_moves st)"
    by (auto simp: close_moves_def Let_def split: if_splits)
  show ?thesis
  proof (cases "cur_move st")
    case None
    with inv mvs show ?thesis by (simp add: split_inv_def)
  next
    case (Some m)
    with inv mvs z show ?thesis by (simp add: split_inv_def)
  qed
qed




lemma validated_items:
  assumes "validated l"
  shows "\<exists>c d j dt a n. l ''credit'' = Some c \<and> is_number c \<and> l ''debit'' = Some d \<and> is_number d \<and>
           l ''journal_id'' = Some j \<and> l ''date'' = Some dt \<and> l ''account_id'' = Some a \<and>
           l ''line'' = Some n"
proof -
  have "is_number (dict_get l k) \<Longrightarrow> \<exists>v. l k = Some v \<and> is_number v" for k
    by (cases "l k") (auto simp: dict_get_def)
  with assms show ?thesis unfolding validated_def by (metis not_None_eq)
qed

lemma py_eq_False_date: "\<not> py_eq (VBool False) (VDate d)"
  by simp

lemma single_line_state:
  assumes bal: "split_move_method cfg = Balanced" and z: "is_zero h (Finite 0)"
    and v: "validated l" and nm: "l ''name'' \<noteq> None"
    and nn: "is_null_line cfg h l = Inr False"
  shows "\<exists>st m. split_pivot cfg h [l] = Inr st \<and>
           cur_balance st = fsub (num_val (dict_get l ''credit'')) (num_val (dict_get l ''debit'')) \<and>
           st_moves st = [] \<and> cur_move st = Some m \<and> length (mv_line_ids m) = 1"
proof -
  from validated_items[OF v] obtain c d j dt a n where
    k: "l ''credit'' = Some c" "is_number c" "l ''debit'' = Some d" "is_number d"
       "l ''journal_id'' = Some j" "l ''date'' = Some dt" "l ''account_id'' = Some a"
       "l ''line'' = Some n"
    by blast
  from nm obtain x where x: "l ''name'' = Some x" by auto
  have sm: "\<exists>same. same_move cfg h init_state l = Inr (same, []) \<and> \<not> list_all (\<lambda>b. b) same"
    using bal z k by (simp add: same_move_def dict_item_def init_state_def Let_def)
  then obtain same where sm1: "same_move cfg h init_state l = Inr (same, [])"
    and sm2: "\<not> list_all (\<lambda>b. b) same" by blast
  have "\<exists>st1 m. new_move cfg h init_state l = Inr st1 \<and> cur_balance st1 = Finite 0 \<and>
      st_moves st1 = [] \<and> cur_move st1 = Some m \<and> length (mv_line_ids m) = 1"
    using k x
    by (simp add: new_move_def init_state_def prepare_move_def prepare_move_line_def dict_item_def)
  then obtain st1 m where n1: "new_move cfg h init_state l = Inr st1"
    and b1: "cur_balance st1 = Finite 0"
    and m1: "st_moves st1 = []" "cur_move st1 = Some m" "length (mv_line_ids m) = 1"
    by blast
  have "add_balance st1 l =
      Inr (st1\<lparr>cur_balance := fadd (cur_balance st1) (fsub (num_val c) (num_val d))\<rparr>)"
    using k by (simp add: add_balance_def dict_item_def as_number_def)
  moreover have "init_state\<lparr>st_errors := []\<rparr> = init_state" by (simp add: init_state_def)
  ultimately have "split_line cfg h init_state l =
      Inr (st1\<lparr>cur_balance := fadd (cur_balance st1) (fsub (num_val c) (num_val d))\<rparr>)"
    using nn sm1 sm2 n1 by (simp add: split_line_def)
  then show ?thesis using b1 m1 k by (simp add: split_pivot_def dict_get_def)
qed

lemma single_line_no_label:
  assumes bal: "split_move_method cfg = Balanced" and z: "is_zero h (Finite 0)"
    and v: "validated l" and nm: "l ''name'' = None"
    and nn: "is_null_line cfg h l = Inr False"
  shows "split_pivot cfg h [l] = Inl (KeyError ''name'')"
proof -
  from validated_items[OF v] obtain c d j dt a n where
    k: "l ''credit'' = Some c" "is_number c" "l ''debit'' = Some d" "is_number d"
       "l ''journal_id'' = Some j" "l ''date'' = Some dt" "l ''account_id'' = Some a"
       "l ''line'' = Some n"
    by blast
  have sm: "\<exists>same. same_move cfg h init_state l = Inr (same, []) \<and> \<not> list_all (\<lambda>b. b) same"
    using bal z k by (simp add: same_move_def dict_item_def init_state_def Let_def)
  then obtain same where sm1: "same_move cfg h init_state l = Inr (same, [])"
    and sm2: "\<not> list_all (\<lambda>b. b) same" by blast
  have n1: "new_move cfg h init_state l = Inl (KeyError ''name'')"
    using k nm
    by (simp add: new_move_def init_state_def prepare_move_def prepare_move_line_def dict_item_def)
  have "init_state\<lparr>st_errors := []\<rparr> = init_state" by (simp add: init_state_def)
  then have "split_line cfg h init_state l = Inl (KeyError ''name'')"
    using nn sm1 sm2 n1 by (simp add: split_line_def)
  then show ?thesis by (simp add: split_pivot_def)
qed

lemma bind_err_Inl_iff:
  "bind_err m f = Inl e \<longleftrightarrow> m = Inl e \<or> (\<exists>x. m = Inr x \<and> f x = Inl e)"
  by (cases m) auto

lemma dict_item_Inl: "dict_item l k = Inl e \<Longrightarrow> e = KeyError k"
  by (auto simp: dict_item_def split: option.splits)

lemma as_number_Inl: "as_number v = Inl e \<Longrightarrow> e = TypeError"
  by (auto simp: as_number_def split: if_splits)

lemma fmt_d_Inl: "fmt_d v = Inl e \<Longrightarrow> e = TypeError \<or> e = ValueError \<or> e = OverflowError"
  by (auto simp: fmt_d_def split: pval.splits pyfloat.splits)

lemma prepare_move_line_Inl: "prepare_move_line l s = Inl e \<Longrightarrow> \<exists>k. e = KeyError k"
  by (auto simp: prepare_move_line_def bind_err_Inl_iff dest: dict_item_Inl)

lemma prepare_move_Inl: "prepare_move cfg l = Inl e \<Longrightarrow> \<exists>k. e = KeyError k"
  by (auto simp: prepare_move_def bind_err_Inl_iff dest: dict_item_Inl)

lemma is_null_line_Inl: "is_null_line cfg h l = Inl e \<Longrightarrow> (\<exists>k. e = KeyError k) \<or> e = TypeError"
  by (auto simp: is_null_line_def bind_err_Inl_iff split: if_splits
      dest: dict_item_Inl as_number_Inl)

lemma same_move_Inl:
  "same_move cfg h st l = Inl e \<Longrightarrow> e \<noteq> UserError (OnlyOneLine n)"
  by (auto simp: same_move_def bind_err_Inl_iff Let_def split: split_method.splits if_splits
      dest: dict_item_Inl fmt_d_Inl)

lemma add_balance_Inl: "add_balance st l = Inl e \<Longrightarrow> (\<exists>k. e = KeyError k) \<or> e = TypeError"
  by (auto simp: add_balance_def bind_err_Inl_iff dest: dict_item_Inl as_number_Inl)

lemma append_line_Inl: "append_line h st l = Inl e \<Longrightarrow> \<exists>k. e = KeyError k"
  by (auto simp: append_line_def bind_err_Inl_iff split: option.splits
      dest: prepare_move_line_Inl)

lemma new_move_first_Inl:
  "cur_move st = None \<Longrightarrow> new_move cfg h st l = Inl e \<Longrightarrow> \<exists>k. e = KeyError k"
  by (auto simp: new_move_def bind_err_Inl_iff
      dest: prepare_move_line_Inl prepare_move_Inl dict_item_Inl)

lemma split_first_line_Inl:
  assumes "cur_move st = None" and "split_line cfg h st l = Inl e"
  shows "e \<noteq> UserError (OnlyOneLine n)"
proof -
  have st: "cur_move (st\<lparr>st_errors := errs\<rparr>) = None" for errs
    using assms(1) by simp
  show ?thesis
  proof (cases "is_null_line cfg h l")
    case (Inl e')
    then have "e' = e" using assms(2) by (simp add: split_line_def)
    with Inl show ?thesis using is_null_line_Inl[of cfg h l e] by auto
  next
    case (Inr null)
    show ?thesis
    proof (cases null)
      case True
      with Inr assms(2) have "dict_item l ''line'' = Inl e"
        by (auto simp: split_line_def bind_err_Inl_iff)
      then show ?thesis using dict_item_Inl[of l "''line''" e] by auto
    next
      case False
      show ?thesis
      proof (cases "same_move cfg h st l")
        case (Inl e')
        then have "e' = e" using assms(2) Inr False by (simp add: split_line_def)
        with Inl show ?thesis using same_move_Inl[of cfg h st l e n] by simp
      next
        case sm: (Inr p)
        obtain same errs where p: "p = (same, errs)" by (cases p)
        let ?m = "if list_all (\<lambda>b. b) same then append_line h (st\<lparr>st_errors := errs\<rparr>) l
            else new_move cfg h (st\<lparr>st_errors := errs\<rparr>) l"
        have "bind_err ?m (\<lambda>st'. add_balance st' l) = Inl e"
          using assms(2) Inr False sm p by (simp add: split_line_def)
        then consider "?m = Inl e" | st' where "add_balance st' l = Inl e"
          by (auto simp: bind_err_Inl_iff)
        then show ?thesis
        proof cases
          case 1
          then have "\<exists>k. e = KeyError k"
            using append_line_Inl[where h = h and l = l and e = e]
              new_move_first_Inl[OF st, where cfg = cfg and h = h and l = l and e = e]
            by (auto split: if_splits)
          then show ?thesis by auto
        next
          case 2
          then show ?thesis using add_balance_Inl[of st' l e] by auto
        qed
      qed
    qed
  qed
qed

lemma close_moves_Inl: "close_moves h st = Inl e \<Longrightarrow> \<exists>b. e = UserError (NotBalanced b)"
  by (auto simp: close_moves_def Let_def split: if_splits)

text \<open>
  Claim C5, as the code has it.  A validated pivot of exactly one line never makes the
  splitter raise the error of an entry of one line: that check is made only when a later
  line closes an entry.  Under the balanced policy, with a currency for which 0 is
  zero, and when the line is not passed over as a null line: a line without a label (the
  key \<^verbatim>\<open>name\<close>) raises a \<^verbatim>\<open>KeyError\<close> on that key; a line with a label whose credit
  minus debit is not zero for the currency raises the error of the unbalanced last
  entry, with that balance; a line with a label whose credit minus debit is zero for the
  currency is emitted, as the only entry, of one line.
\<close>

theorem single_line_not_balanced:
  assumes "validate_pivot sd h [l0] = Inr ([l], lg)"
  shows "create_moves_from_pivot sd cfg h [l0] \<noteq> Inl (UserError (OnlyOneLine n))
       \<and> (split_move_method cfg = Balanced \<and> is_zero h (Finite 0) \<and>
          is_null_line cfg h l = Inr False \<and> l ''name'' = None
          \<longrightarrow> create_moves_from_pivot sd cfg h [l0] = Inl (KeyError ''name''))
       \<and> (split_move_method cfg = Balanced \<and> is_zero h (Finite 0) \<and>
          is_null_line cfg h l = Inr False \<and> l ''name'' \<noteq> None \<and>
          \<not> is_zero h (fsub (num_val (dict_get l ''credit'')) (num_val (dict_get l ''debit'')))
          \<longrightarrow> create_moves_from_pivot sd cfg h [l0] =
                Inl (UserError (NotBalanced
                  (fsub (num_val (dict_get l ''credit'')) (num_val (dict_get l ''debit''))))))
       \<and> (split_move_method cfg = Balanced \<and> is_zero h (Finite 0) \<and>
          is_null_line cfg h l = Inr False \<and> l ''name'' \<noteq> None \<and>
          is_zero h (fsub (num_val (dict_get l ''credit'')) (num_val (dict_get l ''debit'')))
          \<longrightarrow> (\<exists>m. create_moves_from_pivot sd cfg h [l0] = Inr [m] \<and>
                    length (mv_line_ids m) = 1))"
proof (intro conjI impI)
  have c: "create_moves_from_pivot sd cfg h [l0] = extract_moves cfg h [l]"
    using assms by (simp add: create_moves_from_pivot_def)
  show "create_moves_from_pivot sd cfg h [l0] \<noteq> Inl (UserError (OnlyOneLine n))"
  proof (cases "split_line cfg h init_state l")
    case (Inl e)
    have "cur_move init_state = None" by (simp add: init_state_def)
    from split_first_line_Inl[OF this Inl] Inl show ?thesis
      by (simp add: c extract_moves_def split_pivot_def)
  next
    case (Inr st)
    then have "extract_moves cfg h [l] = close_moves h st"
      by (simp add: extract_moves_def split_pivot_def)
    then show ?thesis using close_moves_Inl[of h st] by (auto simp: c)
  qed
next
  assume a: "split_move_method cfg = Balanced \<and> is_zero h (Finite 0) \<and>
          is_null_line cfg h l = Inr False \<and> l ''name'' = None"
  from validate_pivot_validated[OF assms] have "validated l" by simp
  with a single_line_no_label[of cfg h l]
  have "split_pivot cfg h [l] = Inl (KeyError ''name'')" by blast
  then show "create_moves_from_pivot sd cfg h [l0] = Inl (KeyError ''name'')"
    using assms by (simp add: create_moves_from_pivot_def extract_moves_def)
next
  assume a: "split_move_method cfg = Balanced \<and> is_zero h (Finite 0) \<and>
          is_null_line cfg h l = Inr False \<and> l ''name'' \<noteq> None \<and>
          \<not> is_zero h (fsub (num_val (dict_get l ''credit'')) (num_val (dict_get l ''debit'')))"
  from validate_pivot_validated[OF assms] have "validated l" by simp
  with a single_line_state[of cfg h l] obtain st where
    "split_pivot cfg h [l] = Inr st"
    and "cur_balance st = fsub (num_val (dict_get l ''credit'')) (num_val (dict_get l ''debit''))"
    by blast
  then show "create_moves_from_pivot sd cfg h [l0] =
                Inl (UserError (NotBalanced
                  (fsub (num_val (dict_get l ''credit'')) (num_val (dict_get l ''debit'')))))"
    using assms a
    by (simp add: create_moves_from_pivot_def extract_moves_def close_moves_def)
next
  assume a: "split_move_method cfg = Balanced \<and> is_zero h (Finite 0) \<and>
          is_null_line cfg h l = Inr False \<and> l ''name'' \<noteq> None \<and>
          is_zero h (fsub (num_val (dict_get l ''credit'')) (num_val (dict_get l ''debit'')))"
  from validate_pivot_validated[OF assms] have "validated l" by simp
  with a single_line_state[of cfg h l] obtain st m where
    "split_pivot cfg h [l] = Inr st"
    and "cur_balance st = fsub (num_val (dict_get l ''credit'')) (num_val (dict_get l ''debit''))"
    and "st_moves st = []" "cur_move st = Some m" "length (mv_line_ids m) = 1"
    by blast
  then show "\<exists>m. create_moves_from_pivot sd cfg h [l0] = Inr [m] \<and> length (mv_line_ids m) = 1"
    using assms a
    by (simp add: create_moves_from_pivot_def extract_moves_def close_moves_def)
qed

subsection \<open>The examples\<close>

lemma default_config_fields:
  "split_move_method default_config = Balanced"
  "skip_null_lines default_config = False"
  "date_by_move_line default_config = False"
  "keep_odoo_move_name default_config = False"
  by (simp_all add: default_config_def)

lemma test_host_fields:
  "is_zero test_host (Finite r) = (\<bar>r\<bar> < 1 / 200)"
  "next_seq test_host = ''7''"
  by (simp_all add: test_host_def)

lemma test_journals:
  "map_of (sd_journal test_dir) ''VT'' = Some 1"
  "map_of (sd_journal test_dir) ''BNK'' = Some 2"
  by (simp_all add: test_dir_def)

lemma resolve_test_line:
  assumes "n \<noteq> 0" and "map_of (sd_journal test_dir) j = Some k"
  shows "resolve_line test_dir test_host (test_line n j ''6110'' d c, errs, lg) =
     Inr ((test_line n j ''6110'' d c)(''account_id'' \<mapsto> VInt 61, ''journal_id'' \<mapsto> VInt k),
          errs, lg)"
  using assms
  by (simp add: resolve_line_def resolve_account_def match_exact_def match_truncated_def
      match_prefix_def resolve_partner_def resolve_analytic_def resolve_journal_def
      check_date_def check_amount_def dict_get_def dict_item_def test_line_def test_dir_def)

lemma resolve_VT_line:
  "n \<noteq> 0 \<Longrightarrow> resolve_line test_dir test_host (test_line n ''VT'' ''6110'' d c, errs, lg) =
     Inr (resolved_line n 1 d c, errs, lg)"
  by (simp add: resolve_test_line test_journals resolved_line_def)

lemma resolve_BNK_line:
  "n \<noteq> 0 \<Longrightarrow> resolve_line test_dir test_host (test_line n ''BNK'' ''6110'' d c, errs, lg) =
     Inr (resolved_line n 2 d c, errs, lg)"
  by (simp add: resolve_test_line test_journals resolved_line_def)

lemma no_errors_ok: "\<not> has_errors no_errors"
  by (simp add: has_errors_def no_errors_def)

lemma resolved_items:
  "dict_item (resolved_line n k d c) ''credit'' = Inr (VFloat (Finite c))"
  "dict_item (resolved_line n k d c) ''debit'' = Inr (VFloat (Finite d))"
  "dict_item (resolved_line n k d c) ''journal_id'' = Inr (VInt k)"
  "dict_item (resolved_line n k d c) ''date'' = Inr (VDate (2024, 1, 1))"
  "dict_item (resolved_line n k d c) ''line'' = Inr (VInt n)"
  "dict_get (resolved_line n k d c) ''move_name'' = VNone"
  by (simp_all add: resolved_line_def test_line_def dict_item_def dict_get_def)

lemma prepare_resolved_line:
  "prepare_move_line (resolved_line n k d c) ''7'' = Inr (test_move_line n d c)"
  by (simp add: prepare_move_line_def resolved_line_def test_line_def dict_item_def dict_get_def
      test_move_line_def)

lemma prepare_resolved_move:
  "keep_odoo_move_name cfg = False \<Longrightarrow>
     prepare_move cfg (resolved_line n k d c) = Inr (test_move k [])"
  by (simp add: prepare_move_def resolved_line_def test_line_def dict_item_def dict_get_def
      test_move_def)

text \<open>One step of the splitter on a resolved example line, balanced policy.\<close>

lemma split_resolved_new:
  assumes "split_move_method cfg = Balanced" "skip_null_lines cfg = False"
    "keep_odoo_move_name cfg = False"
    and "\<not> (py_eq (cur_journal_id st) (VInt k) \<and> \<not> is_zero test_host (cur_balance st) \<and>
            (date_by_move_line cfg \<or> py_eq (cur_date st) (VDate (2024, 1, 1))))"
    and "case cur_move st of None \<Rightarrow> True | Some m \<Rightarrow> 2 \<le> length (mv_line_ids m)"
  shows "split_line cfg test_host st (resolved_line n k d c) =
     Inr (st\<lparr>st_moves := (case cur_move st of None \<Rightarrow> st_moves st | Some m \<Rightarrow> st_moves st @ [m]),
            cur_move := Some (test_move k [test_move_line n d c]),
            cur_date := VDate (2024, 1, 1), cur_move_name := VNone, cur_journal_id := VInt k,
            cur_balance := Finite (c - d)\<rparr>)"
  using assms
  by (cases "cur_move st")
    (auto simp: split_line_def is_null_line_def same_move_def new_move_def add_balance_def
      resolved_items prepare_resolved_line prepare_resolved_move test_host_fields as_number_def
      test_move_def Let_def)

lemma split_resolved_append:
  assumes "split_move_method cfg = Balanced" "skip_null_lines cfg = False"
    and "py_eq (cur_journal_id st) (VInt k)" "\<not> is_zero test_host (cur_balance st)"
      "date_by_move_line cfg \<or> py_eq (cur_date st) (VDate (2024, 1, 1))"
    and "cur_move st = Some m"
  shows "split_line cfg test_host st (resolved_line n k d c) =
     Inr (st\<lparr>cur_move := Some (m\<lparr>mv_line_ids := mv_line_ids m @ [test_move_line n d c]\<rparr>),
            cur_balance := fadd (cur_balance st) (Finite (c - d))\<rparr>)"
  using assms
  by (auto simp: split_line_def is_null_line_def same_move_def append_line_def add_balance_def
      resolved_items prepare_resolved_line test_host_fields as_number_def Let_def)

lemma validate_two:
  "validate_pivot test_dir test_host
     [test_line 2 ''VT'' ''6110'' d2 c2, test_line 3 ''VT'' ''6110'' d3 c3]
   = Inr ([resolved_line 2 1 d2 c2, resolved_line 3 1 d3 c3], [])"
  by (simp add: validate_pivot_def resolve_VT_line no_errors_ok)

lemma split_two:
  "split_pivot default_config test_host [resolved_line 2 1 100 0, resolved_line 3 1 0 100] =
     Inr (init_state\<lparr>cur_move := Some (test_move 1 [test_move_line 2 100 0, test_move_line 3 0 100]),
            cur_date := VDate (2024, 1, 1), cur_move_name := VNone, cur_journal_id := VInt 1,
            cur_balance := Finite 0\<rparr>)"
  by (simp add: split_pivot_def init_state_def split_resolved_new split_resolved_append
      default_config_fields test_host_fields test_move_def)

lemma create_two:
  "create_moves_from_pivot test_dir default_config test_host
     [test_line 2 ''VT'' ''6110'' 100 0, test_line 3 ''VT'' ''6110'' 0 100]
   = Inr [test_move 1 [test_move_line 2 100 0, test_move_line 3 0 100]]"
  by (simp add: create_moves_from_pivot_def validate_two extract_moves_def split_two
      close_moves_def init_state_def test_host_fields)

theorem split_entries_checked_witness:
  "create_moves_from_pivot test_dir default_config test_host
     [test_line 2 ''VT'' ''6110'' 100 0, test_line 3 ''VT'' ''6110'' 0 100]
   = Inr [test_move 1 [test_move_line 2 100 0, test_move_line 3 0 100]]
   \<and> list_all (\<lambda>m. 2 \<le> length (mv_line_ids m))
        (butlast [test_move 1 [test_move_line 2 100 0, test_move_line 3 0 100]])
   \<and> mv_line_ids (last [test_move 1 [test_move_line 2 100 0, test_move_line 3 0 100]]) \<noteq> []
   \<and> is_zero test_host
        (move_balance (last [test_move 1 [test_move_line 2 100 0, test_move_line 3 0 100]]))"
  using create_two split_entries_checked[OF create_two] by simp

text \<open>A change of journal closes an entry whatever its balance.\<close>

theorem unbalanced_entry_emitted:
  "create_moves_from_pivot test_dir default_config test_host
     [test_line 2 ''VT'' ''6110'' 0 10, test_line 3 ''VT'' ''6110'' 0 5,
      test_line 4 ''BNK'' ''6110'' 15 0, test_line 5 ''BNK'' ''6110'' 0 15]
   = Inr [test_move 1 [test_move_line 2 0 10, test_move_line 3 0 5],
          test_move 2 [test_move_line 4 15 0, test_move_line 5 0 15]]
   \<and> move_balance (test_move 1 [test_move_line 2 0 10, test_move_line 3 0 5]) = Finite 15
   \<and> \<not> is_zero test_host (move_balance (test_move 1 [test_move_line 2 0 10, test_move_line 3 0 5]))"
proof -
  have v: "validate_pivot test_dir test_host
     [test_line 2 ''VT'' ''6110'' 0 10, test_line 3 ''VT'' ''6110'' 0 5,
      test_line 4 ''BNK'' ''6110'' 15 0, test_line 5 ''BNK'' ''6110'' 0 15]
    = Inr ([resolved_line 2 1 0 10, resolved_line 3 1 0 5, resolved_line 4 2 15 0,
            resolved_line 5 2 0 15], [])"
    by (simp add: validate_pivot_def resolve_VT_line resolve_BNK_line no_errors_ok)
  have s: "split_pivot default_config test_host
      [resolved_line 2 1 0 10, resolved_line 3 1 0 5, resolved_line 4 2 15 0,
       resolved_line 5 2 0 15] =
     Inr (init_state\<lparr>st_moves := [test_move 1 [test_move_line 2 0 10, test_move_line 3 0 5]],
            cur_move := Some (test_move 2 [test_move_line 4 15 0, test_move_line 5 0 15]),
            cur_date := VDate (2024, 1, 1), cur_move_name := VNone, cur_journal_id := VInt 2,
            cur_balance := Finite 0\<rparr>)"
    by (simp add: split_pivot_def init_state_def split_resolved_new split_resolved_append
        default_config_fields test_host_fields test_move_def)
  have b: "move_balance (test_move 1 [test_move_line 2 0 10, test_move_line 3 0 5]) = Finite 15"
    by (simp add: move_balance_def test_move_def test_move_line_def)
  show ?thesis
    by (simp add: create_moves_from_pivot_def v extract_moves_def s close_moves_def
        init_state_def test_host_fields b)
qed


lemma validate_one_VT:
  "validate_pivot test_dir test_host [test_line 2 ''VT'' ''6110'' d c]
     = Inr ([resolved_line 2 1 d c], [])"
  by (simp add: validate_pivot_def resolve_VT_line no_errors_ok)

lemma validate_one_BNK:
  "validate_pivot test_dir test_host [test_line 2 ''BNK'' ''6110'' d c]
     = Inr ([resolved_line 2 2 d c], [])"
  by (simp add: validate_pivot_def resolve_BNK_line no_errors_ok)

text \<open>A file of one line: the error is the unbalanced entry, not the entry of one line.\<close>

theorem single_line_raises_not_balanced:
  "create_moves_from_pivot test_dir default_config test_host [test_line 2 ''VT'' ''6110'' 100 0]
     = Inl (UserError (NotBalanced (Finite (- 100))))
   \<and> create_moves_from_pivot test_dir default_config test_host [test_line 2 ''VT'' ''6110'' 100 0]
     \<noteq> Inl (UserError (OnlyOneLine 2))"
proof -
  have s: "split_pivot default_config test_host [resolved_line 2 1 100 0] =
     Inr (init_state\<lparr>cur_move := Some (test_move 1 [test_move_line 2 100 0]),
            cur_date := VDate (2024, 1, 1), cur_move_name := VNone, cur_journal_id := VInt 1,
            cur_balance := Finite (- 100)\<rparr>)"
    by (simp add: split_pivot_def init_state_def split_resolved_new
        default_config_fields test_host_fields test_move_def)
  show ?thesis
    by (simp add: create_moves_from_pivot_def validate_one_VT extract_moves_def s close_moves_def
        init_state_def test_host_fields)
qed

theorem single_line_not_balanced_witness:
  "create_moves_from_pivot test_dir default_config test_host [test_line 2 ''BNK'' ''6110'' 0 50]
     = Inl (UserError (NotBalanced (Finite 50)))
   \<and> create_moves_from_pivot test_dir default_config test_host [test_line 2 ''BNK'' ''6110'' 0 50]
     \<noteq> Inl (UserError (OnlyOneLine 2))
   \<and> create_moves_from_pivot test_dir default_config test_host
       [(test_line 2 ''BNK'' ''6110'' 0 50)(''name'' := None)] = Inl (KeyError ''name'')
   \<and> (\<exists>m. create_moves_from_pivot test_dir default_config test_host
             [test_line 2 ''BNK'' ''6110'' 50 50] = Inr [m] \<and> length (mv_line_ids m) = 1)"
proof -
  have nl: "is_null_line default_config test_host l = Inr False" for l
    by (simp add: is_null_line_def default_config_fields)
  have r: "resolved_line 2 2 d c ''name'' \<noteq> None"
    "dict_get (resolved_line 2 2 d c) ''credit'' = VFloat (Finite c)"
    "dict_get (resolved_line 2 2 d c) ''debit'' = VFloat (Finite d)" for d c
    by (simp_all add: resolved_line_def test_line_def dict_get_def)
  have a: "create_moves_from_pivot test_dir default_config test_host
      [test_line 2 ''BNK'' ''6110'' 0 50] = Inl (UserError (NotBalanced (Finite 50)))
    \<and> create_moves_from_pivot test_dir default_config test_host
      [test_line 2 ''BNK'' ''6110'' 0 50] \<noteq> Inl (UserError (OnlyOneLine 2))"
    using single_line_not_balanced[OF validate_one_BNK[of 0 50],
        where cfg = default_config and n = 2] nl r
    by (simp add: default_config_fields test_host_fields)
  have b: "\<exists>m. create_moves_from_pivot test_dir default_config test_host
      [test_line 2 ''BNK'' ''6110'' 50 50] = Inr [m] \<and> length (mv_line_ids m) = 1"
    using single_line_not_balanced[OF validate_one_BNK[of 50 50],
        where cfg = default_config and n = 2] nl r
    by (simp add: default_config_fields test_host_fields)
  let ?l = "(test_line 2 ''BNK'' ''6110'' 0 50)(''name'' := None)"
  have "resolve_line test_dir test_host (?l, no_errors, []) =
      Inr (?l(''account_id'' \<mapsto> VInt 61, ''journal_id'' \<mapsto> VInt 2), no_errors, [])"
    by (simp add: resolve_line_def resolve_account_def match_exact_def match_truncated_def
      match_prefix_def resolve_partner_def resolve_analytic_def resolve_journal_def
      check_date_def check_amount_def dict_get_def dict_item_def test_line_def test_dir_def)
  then have v: "validate_pivot test_dir test_host [?l] =
      Inr ([?l(''account_id'' \<mapsto> VInt 61, ''journal_id'' \<mapsto> VInt 2)], [])"
    by (simp add: validate_pivot_def no_errors_ok)
  have c: "create_moves_from_pivot test_dir default_config test_host [?l] = Inl (KeyError ''name'')"
    using single_line_not_balanced[OF v, where cfg = default_config and n = 2] nl
    by (simp add: default_config_fields test_host_fields)
  from a b c show ?thesis by simp
qed


section \<open>Inputs on which the code leaves the specification\<close>

text \<open>
  Claim C3 (for every pivot line the account is resolved by the exact code, else by
  taking trailing zeros off, else by the first directory code that starts with the code,
  else the line is recorded under the code as an unresolved account).  A line whose
  account cell is empty has the account \<^verbatim>\<open>False\<close> after the normalizer.  The exact
  match and the \<^verbatim>\<open>while\<close> loop pass it on unchanged, and the scan of the directory
  raises a \<^verbatim>\<open>TypeError\<close> at \<^verbatim>\<open>code.startswith(l['account'])\<close> on the first directory
  code: the last step is not reached and no unresolved account is recorded.  Only with an
  empty account directory, where the scan has no code to test, is the line recorded.
\<close>

theorem empty_account_stops_resolution:
  "normalizer default_config [test_line 3 ''VT'' [] 0 100] =
       Inr [(test_line 3 ''VT'' ''6110'' 0 100)(''account'' \<mapsto> VBool False)]
   \<and> match_exact test_dir ((test_line 3 ''VT'' ''6110'' 0 100)(''account'' \<mapsto> VBool False)) =
       Inr ((test_line 3 ''VT'' ''6110'' 0 100)(''account'' \<mapsto> VBool False))
   \<and> match_truncated test_dir ((test_line 3 ''VT'' ''6110'' 0 100)(''account'' \<mapsto> VBool False)) =
       Inr ((test_line 3 ''VT'' ''6110'' 0 100)(''account'' \<mapsto> VBool False))
   \<and> match_prefix test_dir ((test_line 3 ''VT'' ''6110'' 0 100)(''account'' \<mapsto> VBool False), []) =
       Inl TypeError
   \<and> resolve_account test_dir
       ((test_line 3 ''VT'' ''6110'' 0 100)(''account'' \<mapsto> VBool False), no_errors, []) =
       Inl TypeError
   \<and> resolve_account (test_dir\<lparr>sd_account := []\<rparr>)
       ((test_line 3 ''VT'' ''6110'' 0 100)(''account'' \<mapsto> VBool False), no_errors, []) =
       Inr ((test_line 3 ''VT'' ''6110'' 0 100)(''account'' \<mapsto> VBool False),
            no_errors\<lparr>err_account := [(VBool False, [VInt 3])]\<rparr>, [])"
proof -
  let ?l = "(test_line 3 ''VT'' ''6110'' 0 100)(''account'' \<mapsto> VBool False)"
  have s: "py_strip ''VT'' = ''VT''" "py_strip ''label'' = ''label''"
    by (simp_all add: py_strip_def py_isspace_def)
  have "(\<lambda>k. updated_entry default_config k (clean_strip_line (test_line 3 ''VT'' [] 0 100) k)) = ?l"
    by (rule ext)
      (simp add: clean_strip_line_def updated_entry_def forced_value_def zero_if_false_def
        clean_value_def s default_config_def test_line_def)
  then have "update_line default_config (clean_strip_line (test_line 3 ''VT'' [] 0 100)) = Inr ?l"
    by (simp add: update_line_Inr clean_strip_line_def test_line_def)
  then have n: "normalizer default_config [test_line 3 ''VT'' [] 0 100] = Inr [?l]"
    by (simp add: normalizer_def update_pivot_def clean_strip_pivot_def)
  have a: "match_exact sd ?l = Inr ?l" for sd
    by (simp add: match_exact_def dict_item_def test_line_def)
  have b: "match_truncated sd ?l = Inr ?l" for sd
    by (simp add: match_truncated_def dict_item_def dict_get_def test_line_def)
  have c: "match_prefix test_dir (?l, []) = Inl TypeError"
    by (simp add: match_prefix_def dict_item_def dict_get_def test_line_def test_dir_def)
  have c': "match_prefix (test_dir\<lparr>sd_account := []\<rparr>) (?l, []) = Inr (?l, [])"
    by (simp add: match_prefix_def dict_item_def dict_get_def test_line_def)
  have d: "resolve_account test_dir (?l, no_errors, []) = Inl TypeError"
    by (simp add: resolve_account_def a b c)
  have e: "resolve_account (test_dir\<lparr>sd_account := []\<rparr>) (?l, no_errors, []) =
       Inr (?l, no_errors\<lparr>err_account := [(VBool False, [VInt 3])]\<rparr>, [])"
    by (simp add: resolve_account_def a b c')
       (simp add: dict_item_def dict_get_def test_line_def add_code_error_def no_errors_def)
  from n a b c d e show ?thesis by simp
qed

text \<open>
  Claim C4 (the resolver collects every failure and raises one aggregate error).  A line
  whose account is empty, which the normalizer has turned into \<^verbatim>\<open>False\<close>, makes
  \<^verbatim>\<open>code.startswith(l['account'])\<close> raise a \<^verbatim>\<open>TypeError\<close> in the loop: the failure
  recorded for the line before is never reported and the aggregate error is not raised.
\<close>

theorem empty_account_raises_type_error:
  "resolve_line test_dir test_host (test_line 2 ''XX'' ''6110'' 100 0, no_errors, []) =
     Inr ((test_line 2 ''XX'' ''6110'' 100 0)(''account_id'' \<mapsto> VInt 61),
          no_errors\<lparr>err_journal := [(VStr ''XX'', [VInt 2])]\<rparr>, [])
   \<and> resolve_line test_dir test_host
       ((test_line 3 ''VT'' ''6110'' 0 100)(''account'' \<mapsto> VBool False),
        no_errors\<lparr>err_journal := [(VStr ''XX'', [VInt 2])]\<rparr>, []) = Inl TypeError
   \<and> create_moves_from_pivot test_dir default_config test_host
       [test_line 2 ''XX'' ''6110'' 100 0,
        (test_line 3 ''VT'' ''6110'' 0 100)(''account'' \<mapsto> VBool False)] = Inl TypeError"
proof -
  have a: "resolve_line test_dir test_host (test_line 2 ''XX'' ''6110'' 100 0, no_errors, []) =
     Inr ((test_line 2 ''XX'' ''6110'' 100 0)(''account_id'' \<mapsto> VInt 61),
          no_errors\<lparr>err_journal := [(VStr ''XX'', [VInt 2])]\<rparr>, [])"
    by (simp add: resolve_line_def resolve_account_def match_exact_def match_truncated_def
      match_prefix_def resolve_partner_def resolve_analytic_def resolve_journal_def
      check_date_def check_amount_def dict_get_def dict_item_def test_line_def test_dir_def
      add_code_error_def no_errors_def)
  have b: "resolve_line test_dir test_host
       ((test_line 3 ''VT'' ''6110'' 0 100)(''account'' \<mapsto> VBool False), errs, lg) = Inl TypeError"
    for errs lg
    by (simp add: resolve_line_def resolve_account_def match_exact_def match_truncated_def
      match_prefix_def dict_get_def dict_item_def test_line_def test_dir_def)
  show ?thesis
    by (simp add: a b create_moves_from_pivot_def validate_pivot_def)
qed

text \<open>
  Claim C6 (a missing entry number fails the by-entry-number split).  The message is
  appended to \<^verbatim>\<open>errors['other']\<close>, which is not read again: the lines are grouped
  into an entry and the function returns.
\<close>

theorem missing_move_name_is_ignored:
  "split_pivot (default_config\<lparr>split_move_method := MoveName\<rparr>) test_host
     [resolved_line 2 1 100 0, resolved_line 3 1 0 100] =
     Inr (init_state\<lparr>cur_move := Some (test_move 1 [test_move_line 2 100 0, test_move_line 3 0 100]),
            cur_date := VDate (2024, 1, 1), cur_move_name := VNone, cur_journal_id := VInt 1,
            cur_balance := Finite 0,
            st_errors := [MissingEntryNumber 2, MissingEntryNumber 3]\<rparr>)
   \<and> create_moves_from_pivot test_dir (default_config\<lparr>split_move_method := MoveName\<rparr>) test_host
       [test_line 2 ''VT'' ''6110'' 100 0, test_line 3 ''VT'' ''6110'' 0 100]
     = Inr [test_move 1 [test_move_line 2 100 0, test_move_line 3 0 100]]"
proof -
  let ?cfg = "default_config\<lparr>split_move_method := MoveName\<rparr>"
  have cfg: "split_move_method ?cfg = MoveName" "skip_null_lines ?cfg = False"
    "keep_odoo_move_name ?cfg = False"
    by (simp_all add: default_config_def)
  have s: "split_pivot ?cfg test_host [resolved_line 2 1 100 0, resolved_line 3 1 0 100] =
     Inr (init_state\<lparr>cur_move := Some (test_move 1 [test_move_line 2 100 0, test_move_line 3 0 100]),
            cur_date := VDate (2024, 1, 1), cur_move_name := VNone, cur_journal_id := VInt 1,
            cur_balance := Finite 0,
            st_errors := [MissingEntryNumber 2, MissingEntryNumber 3]\<rparr>)"
    by (simp add: split_pivot_def init_state_def split_line_def is_null_line_def same_move_def
        new_move_def append_line_def add_balance_def cfg resolved_items prepare_resolved_line
        prepare_resolved_move test_host_fields as_number_def fmt_d_def test_move_def)
  show ?thesis
    by (simp add: s create_moves_from_pivot_def validate_two extract_moves_def close_moves_def
        init_state_def test_host_fields)
qed

text \<open>
  Claim C7 (a group that may not be linked is skipped without an error).  A balanced
  group on one reconcilable account with two partners raises a \<^verbatim>\<open>TypeError\<close> while
  the warning is built; with one partner the group is linked.
\<close>

theorem two_partners_raise_type_error:
  "reconcile_move_lines test_host [test_item 1 0 50 (Some 1), test_item 2 50 0 (Some 2)]
     = Inl TypeError
   \<and> reconcile_move_lines test_host [test_item 1 0 50 (Some 1), test_item 2 50 0 (Some 1)]
     = Inr [Link [test_item 1 0 50 (Some 1), test_item 2 50 0 (Some 1)]]"
  by (simp add: reconcile_move_lines_def group_by_tag_def add_to_group_def add_key_def
      reconcile_group_def group_total_def group_accounts_def group_partners_def partner_key_def
      test_item_def test_account_def test_host_def Let_def)

section \<open>Further properties\<close>

subsection \<open>The reconciler\<close>

lemma fold_add_key:
  "distinct acc \<Longrightarrow>
     distinct (fold (\<lambda>x ks. add_key (f x) ks) xs acc) \<and>
     set (fold (\<lambda>x ks. add_key (f x) ks) xs acc) = set acc \<union> f ` set xs"
  by (induction xs arbitrary: acc) (auto simp: add_key_def)

lemma length_fold_add_key:
  "length (fold (\<lambda>x ks. add_key (f x) ks) xs []) = length (remdups (map f xs))"
proof -
  have "distinct (fold (\<lambda>x ks. add_key (f x) ks) xs [])"
    and "set (fold (\<lambda>x ks. add_key (f x) ks) xs []) = f ` set xs"
    using fold_add_key[of "[]" f xs] by simp_all
  then have "length (fold (\<lambda>x ks. add_key (f x) ks) xs []) = card (f ` set xs)"
    by (metis distinct_card)
  also have "\<dots> = length (remdups (map f xs))"
    by (simp add: length_remdups_card_conv)
  finally show ?thesis .
qed

lemma group_accounts_length:
  "length (group_accounts ls) = length (remdups (map item_account ls))"
  unfolding group_accounts_def by (rule length_fold_add_key)

lemma group_partners_length:
  "length (group_partners ls) = length (remdups (map partner_key ls))"
  unfolding group_partners_def by (rule length_fold_add_key)

lemma group_accounts_set: "set (group_accounts ls) = item_account ` set ls"
  unfolding group_accounts_def using fold_add_key[of "[]" item_account ls] by simp

lemma single_account:
  assumes "group_accounts ls = [a]"
  shows "list_all (\<lambda>line. acc_reconcile (item_account line)) ls \<longleftrightarrow> ls = [] \<or> acc_reconcile a"
proof -
  have "item_account ` set ls = {a}" using group_accounts_set[of ls] assms by simp
  then have "\<forall>line \<in> set ls. item_account line = a" by blast
  then show ?thesis by (cases ls) (auto simp: list_all_iff)
qed

text \<open>
  What \<^verbatim>\<open>reconcile_move_lines\<close> does with one group: it links the group exactly when
  the group has two items or more, a total that is zero for the currency, one account,
  that account allowing reconciliation, and one partner at most; with those conditions
  on size, total and account and more than one partner it raises; in every other case
  it skips the group with the warning of the first condition that fails.
\<close>

theorem reconcile_group_outcome:
  "reconcile_group h rec_ref ls =
     (if linkable h ls then Inr (Link ls)
      else if 2 \<le> length ls \<and> is_zero h (group_total ls) \<and>
              length (remdups (map item_account ls)) = 1 \<and>
              list_all (\<lambda>line. acc_reconcile (item_account line)) ls
           then Inl TypeError
      else Inr (Skip
        (if length ls < 2 then SkipOnlyOneLine rec_ref
         else if \<not> is_zero h (group_total ls) then SkipNotBalanced rec_ref (group_total ls)
         else if 1 < length (remdups (map item_account ls))
           then SkipDifferentAccounts rec_ref (map acc_code (group_accounts ls))
         else SkipNotReconcilable rec_ref (acc_display_name (hd (group_accounts ls))))))"
proof (cases "length ls < 2")
  case True
  then show ?thesis by (simp add: reconcile_group_def linkable_def)
next
  case long: False
  then have ne: "ls \<noteq> []" by auto
  show ?thesis
  proof (cases "is_zero h (group_total ls)")
    case False
    with long show ?thesis by (simp add: reconcile_group_def linkable_def Let_def)
  next
    case zero: True
    show ?thesis
    proof (cases "1 < length (group_accounts ls)")
      case True
      with long zero show ?thesis
        by (simp add: reconcile_group_def linkable_def Let_def group_accounts_length)
    next
      case False
      have "group_accounts ls \<noteq> []" using group_accounts_set[of ls] ne by auto
      with False obtain a where a: "group_accounts ls = [a]"
        by (cases "group_accounts ls") auto
      then have one: "length (remdups (map item_account ls)) = 1"
        using group_accounts_length[of ls] by simp
      from single_account[OF a] ne
      have rec: "list_all (\<lambda>line. acc_reconcile (item_account line)) ls \<longleftrightarrow> acc_reconcile a"
        by simp
      show ?thesis using long zero a one rec
        by (auto simp: reconcile_group_def linkable_def Let_def group_partners_length)
    qed
  qed
qed

theorem reconcile_group_outcome_witness:
  "reconcile_group test_host ''A1'' [test_item 1 0 50 (Some 1), test_item 2 50 0 (Some 1)]
     = Inr (Link [test_item 1 0 50 (Some 1), test_item 2 50 0 (Some 1)])
   \<and> reconcile_group test_host ''A1'' [test_item 1 0 50 (Some 1), test_item 2 40 0 (Some 1)]
     = Inr (Skip (SkipNotBalanced ''A1'' (Finite 10)))
   \<and> reconcile_group test_host ''A1'' [test_item 1 0 50 (Some 1)]
     = Inr (Skip (SkipOnlyOneLine ''A1''))"
proof -
  have t: "group_total [test_item 1 0 50 (Some 1), test_item 2 50 0 (Some 1)] = Finite 0"
    "group_total [test_item 1 0 50 (Some 1), test_item 2 40 0 (Some 1)] = Finite 10"
    by (simp_all add: group_total_def test_item_def)
  have k: "partner_key (test_item n d c (Some 1)) = Some 1" for n d c
    by (simp add: partner_key_def test_item_def)
  have a: "item_account (test_item n d c p) = test_account" for n d c p
    by (simp add: test_item_def)
  have r: "acc_reconcile test_account" by (simp add: test_account_def)
  show ?thesis
    using reconcile_group_outcome[of test_host "''A1''"
        "[test_item 1 0 50 (Some 1), test_item 2 50 0 (Some 1)]"]
      reconcile_group_outcome[of test_host "''A1''"
        "[test_item 1 0 50 (Some 1), test_item 2 40 0 (Some 1)]"]
      reconcile_group_outcome[of test_host "''A1''" "[test_item 1 0 50 (Some 1)]"]
    by (simp add: linkable_def t k a r test_host_def)
qed

subsection \<open>The validation\<close>

text \<open>
  When the validation returns, it returns as many lines as it was given, and every line
  has numbers as credit and debit and holds a journal id, a date, an account id and its
  line number: the splitter reads no key that could be missing, but the label.
\<close>

theorem validated_lines:
  assumes "validate_pivot sd h pivot = Inr (pivot', lg)"
  shows "list_all validated pivot' \<and> length pivot' = length pivot"
  using assms by (rule validate_pivot_validated)

theorem validated_lines_witness:
  "validate_pivot test_dir test_host
     [test_line 2 ''VT'' ''6110'' 100 0, test_line 3 ''VT'' ''6110'' 0 100]
   = Inr ([resolved_line 2 1 100 0, resolved_line 3 1 0 100], [])
   \<and> validated (resolved_line 2 1 100 0) \<and> validated (resolved_line 3 1 0 100)"
  using validate_two[of 100 0 0 100] validated_lines[OF validate_two[of 100 0 0 100]] by simp

text \<open>
  When the first loop ends with an error in any bucket, \<^verbatim>\<open>create_moves_from_pivot\<close>
  raises the one error made of all the buckets, whatever the split policy, and creates
  no entry.
\<close>

theorem resolution_errors_abort:
  assumes "resolve_pivot sd h pivot (no_errors, []) = Inr (pivot', errs, lg)" and "has_errors errs"
  shows "create_moves_from_pivot sd cfg h pivot = Inl (UserError (ResolutionErrors errs))"
  using assms by (rule errors_raise_aggregate)

theorem resolution_errors_abort_witness:
  "create_moves_from_pivot test_dir default_config test_host
     [test_line 2 ''XX'' ''6110'' 100 0, test_line 3 ''YY'' ''6110'' 0 100]
   = Inl (UserError (ResolutionErrors
       (no_errors\<lparr>err_journal := [(VStr ''XX'', [VInt 2]), (VStr ''YY'', [VInt 3])]\<rparr>)))"
proof -
  have l: "n \<noteq> 0 \<Longrightarrow> map_of (sd_journal test_dir) j = None \<Longrightarrow>
    resolve_line test_dir test_host (test_line n j ''6110'' d c, errs, lg) =
     Inr ((test_line n j ''6110'' d c)(''account_id'' \<mapsto> VInt 61),
          errs\<lparr>err_journal := add_code_error (VStr j) (VInt n) (err_journal errs)\<rparr>, lg)"
    for n j d c errs lg
    by (simp add: resolve_line_def resolve_account_def match_exact_def match_truncated_def
      match_prefix_def resolve_partner_def resolve_analytic_def resolve_journal_def
      check_date_def check_amount_def dict_get_def dict_item_def test_line_def test_dir_def)
  have j: "map_of (sd_journal test_dir) ''XX'' = None" "map_of (sd_journal test_dir) ''YY'' = None"
    by (simp_all add: test_dir_def)
  have r: "resolve_pivot test_dir test_host
     [test_line 2 ''XX'' ''6110'' 100 0, test_line 3 ''YY'' ''6110'' 0 100] (no_errors, [])
    = Inr ([(test_line 2 ''XX'' ''6110'' 100 0)(''account_id'' \<mapsto> VInt 61),
            (test_line 3 ''YY'' ''6110'' 0 100)(''account_id'' \<mapsto> VInt 61)],
           no_errors\<lparr>err_journal := [(VStr ''XX'', [VInt 2]), (VStr ''YY'', [VInt 3])]\<rparr>, [])"
    by (simp add: l j add_code_error_def no_errors_def)
  have e: "has_errors (no_errors\<lparr>err_journal := [(VStr ''XX'', [VInt 2]), (VStr ''YY'', [VInt 3])]\<rparr>)"
    by (simp add: has_errors_def)
  from resolution_errors_abort[OF r e] show ?thesis .
qed

end
